theory Spec2Isabelle
  imports Main
begin

section \<open>Batched data loading for extreme classification (xclib/data/data\_loader.py)\<close>

text \<open>
  A shallow embedding of \<^verbatim>\<open>DataloaderBase\<close>, \<^verbatim>\<open>Dataloader\<close> and
  \<^verbatim>\<open>DataloaderShortlist\<close>. Python integers supplied by the caller (batch size, label
  range, shortlist candidates) are \<open>int\<close>; matrix dimensions and stored indices, which
  numpy and scipy keep non-negative, are \<open>nat\<close>. Every \<^verbatim>\<open>raise\<close> is a value
  \<open>Inl e\<close> of a sum type.
\<close>

subsection \<open>Exceptions\<close>

datatype error =
    NotImplementedError string
  | ValueError string
  | AttributeError string
  | ZeroDivisionError
  | OverflowError
  | IndexError
  | FileNotFoundError
  | OtherError string

subsection \<open>Python and numpy primitives\<close>

text \<open>Python slicing \<^verbatim>\<open>xs[start:stop]\<close>: a negative bound counts from the end, and both
  bounds are clipped to the length.\<close>

definition slice_bound :: "int \<Rightarrow> nat \<Rightarrow> nat" where
  "slice_bound i n = (if i < 0 then nat (max (i + int n) 0) else min (nat i) n)"

definition py_slice :: "'a list \<Rightarrow> int \<Rightarrow> int \<Rightarrow> 'a list" where
  "py_slice xs start stop =
     (let a = slice_bound start (length xs); b = slice_bound stop (length xs)
      in take (b - a) (drop a xs))"

text \<open>\<^verbatim>\<open>np.arange(n)\<close> for a non-negative count.\<close>

definition arange :: "nat \<Rightarrow> nat list" where
  "arange n = [0..<n]"

text \<open>\<^verbatim>\<open>ndarray.cumsum\<close>: the running sums.\<close>

fun cumsum_from :: "nat \<Rightarrow> nat list \<Rightarrow> nat list" where
  "cumsum_from acc [] = []"
| "cumsum_from acc (x # xs) = (acc + x) # cumsum_from (acc + x) xs"

definition cumsum :: "nat list \<Rightarrow> nat list" where
  "cumsum xs = cumsum_from 0 xs"

text \<open>
  \<^verbatim>\<open>np.array_split(ary, Nsections)\<close> with a scalar section count:
  \<^verbatim>\<open>
  if Nsections <= 0: raise ValueError('number sections must be larger than 0.')
  Neach_section, extras = divmod(Ntotal, Nsections)
  section_sizes = [0] + extras * [Neach_section+1] + (Nsections-extras) * [Neach_section]
  div_points = array(section_sizes).cumsum()
  for i in range(Nsections): sub_arys.append(ary[div_points[i]:div_points[i+1]])
  \<close>
\<close>

definition array_split :: "'a list \<Rightarrow> int \<Rightarrow> error + 'a list list" where
  "array_split ary indices_or_sections =
     (if indices_or_sections \<le> 0
      then Inl (ValueError ''number sections must be larger than 0.'')
      else
        let Ntotal = length ary;
            Nsections = nat indices_or_sections;
            Neach_section = Ntotal div Nsections;
            extras = Ntotal mod Nsections;
            section_sizes = [0] @ replicate extras (Neach_section + 1)
                                @ replicate (Nsections - extras) Neach_section;
            div_points = cumsum section_sizes
        in Inr (map (\<lambda>i. py_slice ary (int (div_points ! i)) (int (div_points ! (i + 1))))
                    [0..<Nsections]))"

text \<open>\<^verbatim>\<open>arr[idxs] = v\<close> on a one-dimensional array, with an index array of stored
  (non-negative) positions: an index beyond the end raises \<^verbatim>\<open>IndexError\<close>.\<close>

definition setitem_indices :: "int list \<Rightarrow> nat list \<Rightarrow> int \<Rightarrow> error + int list" where
  "setitem_indices arr idxs v =
     (if \<exists>i \<in> set idxs. length arr \<le> i then Inl IndexError
      else Inr (fold (\<lambda>i a. a[i := v]) idxs arr))"

subsection \<open>Sparse matrices (scipy.sparse)\<close>

text \<open>
  A sparse matrix is its row count and, per column, the stored entries
  \<open>(row, value)\<close>; the column count is the number of columns. Only stored entries
  exist: \<^verbatim>\<open>.indices\<close> of a column and \<^verbatim>\<open>.rows\<close> of the list-of-lists form read the
  structure, never the values.
\<close>

record 'v spmatrix =
  nrows :: nat
  columns :: "(nat \<times> 'v) list list"

definition ncols :: "'v spmatrix \<Rightarrow> nat" where
  "ncols M = length (columns M)"

definition shape :: "'v spmatrix \<Rightarrow> nat \<times> nat" where
  "shape M = (nrows M, ncols M)"

text \<open>\<^verbatim>\<open>.indices\<close> of column \<open>j\<close>: the row positions of its stored entries.\<close>

definition col_indices :: "'v spmatrix \<Rightarrow> nat \<Rightarrow> nat list" where
  "col_indices M j = map fst (columns M ! j)"

text \<open>\<^verbatim>\<open>M.tolil().rows\<close>: for every row, the ascending column positions of its stored
  entries.\<close>

definition tolil_rows :: "'v spmatrix \<Rightarrow> nat list list" where
  "tolil_rows M =
     map (\<lambda>i. filter (\<lambda>j. i \<in> set (col_indices M j)) [0..<ncols M]) [0..<nrows M]"

text \<open>The value at a position: the stored value, or zero where nothing is stored.\<close>

definition value_at :: "('v::zero) spmatrix \<Rightarrow> nat \<Rightarrow> nat \<Rightarrow> 'v" where
  "value_at M i j = (case map_of (columns M ! j) i of None \<Rightarrow> 0 | Some v \<Rightarrow> v)"

text \<open>\<^verbatim>\<open>getnnz\<close> of one row: the number of stored entries in it.\<close>

definition row_nnz :: "'v spmatrix \<Rightarrow> nat \<Rightarrow> nat" where
  "row_nnz M i = length (filter (\<lambda>j. i \<in> set (col_indices M j)) [0..<ncols M])"

text \<open>
  \<^verbatim>\<open>sparse.csc_matrix((data, (rows, cols)), shape=(m, n))\<close>, as scipy 1.10 on
  numpy 1.x runs it. The coordinate constructor first stores the index lists as arrays of
  the index type for the shape,
  \<^verbatim>\<open>
  idx_dtype = get_index_dtype(maxval=max(self.shape))   # int32 up to 2**31 - 1, else int64
  self.row = np.array(row, copy=copy, dtype=idx_dtype)
  self.col = np.array(col, copy=copy, dtype=idx_dtype)
  \<close>
  where a Python integer that does not fit a C long raises \<^verbatim>\<open>OverflowError\<close> and any
  other one is cut to the width of the index type (two's complement). It then checks the
  stored arrays when there is at least one entry (\<^verbatim>\<open>coo_matrix._check\<close>), in this order:
  \<^verbatim>\<open>
  if self.row.max() >= self.shape[0]: raise ValueError('row index exceeds matrix dimensions')
  if self.col.max() >= self.shape[1]: raise ValueError('column index exceeds matrix dimensions')
  if self.row.min() < 0: raise ValueError('negative row index found')
  if self.col.min() < 0: raise ValueError('negative column index found')
  \<close>
  and the conversion to compressed columns sums the values of duplicate positions.
\<close>

definition index_width :: "nat \<times> nat \<Rightarrow> nat" where
  "index_width shp = (if int (max (fst shp) (snd shp)) < 2 ^ 31 then 32 else 64)"

definition to_index :: "nat \<Rightarrow> int \<Rightarrow> error + int" where
  "to_index w x =
     (if x < - (2 ^ 63) \<or> 2 ^ 63 \<le> x then Inl OverflowError
      else Inr ((x + 2 ^ (w - 1)) mod 2 ^ w - 2 ^ (w - 1)))"

fun index_array :: "nat \<Rightarrow> int list \<Rightarrow> error + int list" where
  "index_array w [] = Inr []"
| "index_array w (x # xs) =
     (case to_index w x of
        Inl e \<Rightarrow> Inl e
      | Inr y \<Rightarrow> (case index_array w xs of Inl e \<Rightarrow> Inl e | Inr ys \<Rightarrow> Inr (y # ys)))"

definition csc_column :: "(int \<times> int \<times> int) list \<Rightarrow> nat \<Rightarrow> (nat \<times> int) list" where
  "csc_column triples j =
     (let ent = map (\<lambda>(r, c, v). (nat r, v)) (filter (\<lambda>(r, c, v). c = int j) triples)
      in map (\<lambda>r. (r, sum_list (map snd (filter (\<lambda>(r', v). r' = r) ent))))
             (sort (remdups (map fst ent))))"

text \<open>The checks and the conversion, on index arrays already stored.\<close>

definition coo_to_csc ::
  "int list \<Rightarrow> int list \<Rightarrow> int list \<Rightarrow> nat \<times> nat \<Rightarrow> error + int spmatrix" where
  "coo_to_csc dat rows cols shp =
     (let (m, n) = shp in
      if dat \<noteq> [] \<and> (\<exists>r \<in> set rows. int m \<le> r)
        then Inl (ValueError ''row index exceeds matrix dimensions'')
      else if dat \<noteq> [] \<and> (\<exists>c \<in> set cols. int n \<le> c)
        then Inl (ValueError ''column index exceeds matrix dimensions'')
      else if dat \<noteq> [] \<and> (\<exists>r \<in> set rows. r < 0)
        then Inl (ValueError ''negative row index found'')
      else if dat \<noteq> [] \<and> (\<exists>c \<in> set cols. c < 0)
        then Inl (ValueError ''negative column index found'')
      else Inr \<lparr>nrows = m,
                columns = map (csc_column (zip rows (zip cols dat))) [0..<n]\<rparr>)"

definition csc_matrix ::
  "int list \<Rightarrow> int list \<Rightarrow> int list \<Rightarrow> nat \<times> nat \<Rightarrow> error + int spmatrix" where
  "csc_matrix dat rows cols shp =
     (case index_array (index_width shp) rows of
        Inl e \<Rightarrow> Inl e
      | Inr row \<Rightarrow>
          (case index_array (index_width shp) cols of
             Inl e \<Rightarrow> Inl e
           | Inr col \<Rightarrow> coo_to_csc dat row col shp))"

subsection \<open>Features and labels (xclib/data/features.py, xclib/data/labels.py)\<close>

text \<open>The feature store is an external collaborator: its counts and an opaque data handle.\<close>

record 'd features =
  f_num_instances :: nat
  f_num_features :: nat
  f_data :: 'd

text \<open>
  Modelled from the spec: \<^verbatim>\<open>LabelsBase\<close> (xclib/data/labels.py is not part of the
  sources at hand). The spec's Label Matrix is a sparse matrix of logical shape
  (instance count) x (label count) that "exposes slice-by-index along either axis and an
  invalid label filter"; the loader reaches the matrix as \<^verbatim>\<open>labels.Y\<close> and
  \<^verbatim>\<open>labels.data\<close>, which are the one matrix here.
\<close>

record 'v LabelsBase =
  Y :: "'v spmatrix"

definition labels_num_labels :: "'v LabelsBase \<Rightarrow> nat" where
  "labels_num_labels lb = ncols (Y lb)"

text \<open>Modelled from the spec: \<^verbatim>\<open>labels[:, start:stop]\<close>, "slices columns to
  [start\_index, end\_index)", with Python's slice bounds.\<close>

definition getitem_cols :: "'v LabelsBase \<Rightarrow> int \<Rightarrow> int \<Rightarrow> 'v LabelsBase" where
  "getitem_cols lb start stop = lb\<lparr>Y := (Y lb)\<lparr>columns := py_slice (columns (Y lb)) start stop\<rparr>\<rparr>"

text \<open>Modelled from the spec: \<^verbatim>\<open>labels.remove_invalid()\<close>. The valid labels are "the
  subset of label column indices that have at least one positive instance"; the matrix
  keeps these columns, and the indices are returned.\<close>

definition remove_invalid :: "'v LabelsBase \<Rightarrow> nat list \<times> 'v LabelsBase" where
  "remove_invalid lb =
     (let valid = filter (\<lambda>j. columns (Y lb) ! j \<noteq> []) [0..<ncols (Y lb)]
      in (valid, lb\<lparr>Y := (Y lb)\<lparr>columns := map (\<lambda>j. columns (Y lb) ! j) valid\<rparr>\<rparr>))"

text \<open>Modelled from the spec: \<^verbatim>\<open>labels.index_select(idx)\<close>, the slice of one label
  column. It returns the column and leaves the labels as they are (the second component);
  a column that does not exist raises \<^verbatim>\<open>IndexError\<close>.\<close>

definition index_select_label ::
  "'v LabelsBase \<Rightarrow> nat \<Rightarrow> (error + 'v spmatrix) \<times> 'v LabelsBase" where
  "index_select_label lb idx =
     (if idx < ncols (Y lb)
      then (Inr \<lparr>nrows = nrows (Y lb), columns = [columns (Y lb) ! idx]\<rparr>, lb)
      else (Inl IndexError, lb))"

text \<open>Modelled from the spec: \<^verbatim>\<open>labels.index_select(batch_indices, axis=0)\<close>, "the
  label-matrix rows selected by those indices (row slice, preserving sparse format)".\<close>

definition select_rows :: "'v spmatrix \<Rightarrow> nat list \<Rightarrow> 'v spmatrix" where
  "select_rows M idxs =
     \<lparr>nrows = length idxs,
      columns = map (\<lambda>col. concat (map (\<lambda>k. map (\<lambda>(r, v). (k, v))
                                              (filter (\<lambda>(r, v). r = idxs ! k) col))
                                    [0..<length idxs]))
                    (columns M)\<rparr>"

definition index_select_instances ::
  "'v LabelsBase \<Rightarrow> nat list \<Rightarrow> (error + 'v spmatrix) \<times> 'v LabelsBase" where
  "index_select_instances lb idxs =
     (if \<exists>i \<in> set idxs. nrows (Y lb) \<le> i then (Inl IndexError, lb)
      else (Inr (select_rows (Y lb) idxs), lb))"

subsection \<open>The loader object\<close>

record ('d, 'v) loader =
  feature_type :: string
  norm :: "string option"
  features :: "'d features"
  labels :: "'v LabelsBase"
  batch_size :: int
  start_index :: int
  end_index :: int
  batch_order :: string
  mode :: string
  valid_labels :: "nat list option"
  num_valid_labels :: "nat option"
  batches :: "nat list list option"
  num_labels_orig :: nat

text \<open>The read-only properties \<^verbatim>\<open>num_instances\<close>, \<^verbatim>\<open>num_features\<close>,
  \<^verbatim>\<open>num_labels\<close> (\<open>num_labels_orig\<close> is the attribute \<^verbatim>\<open>num_labels_\<close>).\<close>

definition num_instances :: "('d, 'v) loader \<Rightarrow> nat" where
  "num_instances L = f_num_instances (features L)"

definition num_features :: "('d, 'v) loader \<Rightarrow> nat" where
  "num_features L = f_num_features (features L)"

definition num_labels :: "('d, 'v) loader \<Rightarrow> nat" where
  "num_labels L = labels_num_labels (labels L)"

subsection \<open>Batch partition: \<^verbatim>\<open>_gen_batches\<close>\<close>

text \<open>Python's \<^verbatim>\<open>%\<close> and \<^verbatim>\<open>//\<close> on integers are floor division, as \<open>mod\<close> and
  \<open>div\<close> on \<open>int\<close> are; a zero divisor raises.\<close>

definition gen_batches :: "('d, 'v) loader \<Rightarrow> error + ('d, 'v) loader" where
  "gen_batches L =
     (if batch_order L = ''labels'' then
        (if batch_size L = 0 then Inl ZeroDivisionError
         else
           let offset = (if int (num_labels L) mod batch_size L = 0 then 0 else 1);
               num_batches = int (num_labels L) div batch_size L + offset
           in case array_split (arange (num_labels L)) num_batches of
                Inl e \<Rightarrow> Inl e
              | Inr bs \<Rightarrow> Inr (L\<lparr>batches := Some bs\<rparr>))
      else if batch_order L = ''instances'' then
        (if batch_size L = 0 then Inl ZeroDivisionError
         else
           let offset = (if int (num_instances L) mod batch_size L = 0 then 0 else 1);
               num_batches = int (num_instances L) div batch_size L + offset
           in case array_split (arange (num_instances L)) num_batches of
                Inl e \<Rightarrow> Inl e
              | Inr bs \<Rightarrow> Inr (L\<lparr>batches := Some bs\<rparr>))
      else Inl (NotImplementedError ''Unknown order for batching!''))"

subsection \<open>Batch materializers of \<^verbatim>\<open>Dataloader\<close>\<close>

text \<open>
  The materializers are methods of the loader, so they are modelled as steps on it: each
  returns its result (or the exception) together with the loader as the call leaves it.
  The items are the dictionaries with keys \<^verbatim>\<open>ind\<close>, \<^verbatim>\<open>data\<close> and \<^verbatim>\<open>Y\<close>.
\<close>

record 'd label_item =
  item_ind :: "nat list option"
  item_data :: 'd
  item_Y :: "int list"

record ('d, 'v) instance_batch =
  ib_data :: 'd
  ib_ind :: "nat list"
  ib_Y :: "'v spmatrix"

datatype ('d, 'v) batch =
    LabelBatch "'d label_item list"
  | InstanceBatch "('d, 'v) instance_batch"

definition create_instance_batch ::
  "('d, 'v) loader \<Rightarrow> nat list \<Rightarrow> (error + ('d, 'v) instance_batch) \<times> ('d, 'v) loader" where
  "create_instance_batch L batch_indices =
     (let (res, lb) = index_select_instances (labels L) batch_indices;
          L' = L\<lparr>labels := lb\<rparr>
      in case res of
           Inl e \<Rightarrow> (Inl e, L')
         | Inr rows \<Rightarrow>
             (Inr \<lparr>ib_data = f_data (features L'), ib_ind = batch_indices, ib_Y = rows\<rparr>, L'))"

text \<open>
  \<^verbatim>\<open>
  for idx in batch_indices:
      pos_indices = self.labels.index_select(idx).indices
      batch_labels = -1*np.ones((self.num_instances,), dtype=np.float32)
      batch_labels[pos_indices] = 1
      item = {'ind': None, 'data': self.features.data, 'Y': batch_labels}
      batch_data.append(item)
  \<close>
  The float32 values \<open>-1.0\<close> and \<open>1.0\<close> are written as the integers they are.
\<close>

fun label_batch_loop ::
  "('d, 'v) loader \<Rightarrow> nat list \<Rightarrow> 'd label_item list
     \<Rightarrow> (error + 'd label_item list) \<times> ('d, 'v) loader" where
  "label_batch_loop L [] batch_data = (Inr batch_data, L)"
| "label_batch_loop L (idx # rest) batch_data =
     (let (res, lb) = index_select_label (labels L) idx;
          L' = L\<lparr>labels := lb\<rparr>
      in case res of
           Inl e \<Rightarrow> (Inl e, L')
         | Inr col \<Rightarrow>
             (let pos_indices = col_indices col 0;
                  batch_labels = replicate (num_instances L') (- 1)
              in case setitem_indices batch_labels pos_indices 1 of
                   Inl e \<Rightarrow> (Inl e, L')
                 | Inr batch_labels' \<Rightarrow>
                     label_batch_loop L' rest
                       (batch_data @ [\<lparr>item_ind = None, item_data = f_data (features L'),
                                        item_Y = batch_labels'\<rparr>])))"

definition create_label_batch ::
  "('d, 'v) loader \<Rightarrow> nat list \<Rightarrow> (error + 'd label_item list) \<times> ('d, 'v) loader" where
  "create_label_batch L batch_indices = label_batch_loop L batch_indices []"

definition create_batch ::
  "('d, 'v) loader \<Rightarrow> nat list \<Rightarrow> (error + ('d, 'v) batch) \<times> ('d, 'v) loader" where
  "create_batch L batch_indices =
     (if batch_order L = ''labels''
      then (case create_label_batch L batch_indices of
              (Inl e, L') \<Rightarrow> (Inl e, L')
            | (Inr items, L') \<Rightarrow> (Inr (LabelBatch items), L'))
      else (case create_instance_batch L batch_indices of
              (Inl e, L') \<Rightarrow> (Inl e, L')
            | (Inr b, L') \<Rightarrow> (Inr (InstanceBatch b), L')))"

subsection \<open>Shortlist update of \<^verbatim>\<open>DataloaderShortlist\<close>\<close>

text \<open>
  \<^verbatim>\<open>
  for idx in range(self.num_instances):
      indices = shortlist_ind[idx]
      _pos = pos_labels[idx]
      s_pos = set(_pos)
      s_pos.update([self.num_labels])
      _neg = list(filter(lambda x: x not in s_pos, indices))
      num_pos, num_neg = len(_pos), len(_neg)
      data.extend([1]*num_pos + [-1]*num_neg)
      cols.extend(_pos + _neg)
      rows.extend([idx]*(num_pos+num_neg))
  \<close>
  The accumulator is \<open>(rows, cols, data)\<close>. Indexing \<^verbatim>\<open>shortlist_ind\<close> or
  \<^verbatim>\<open>pos_labels\<close> beyond its length raises \<^verbatim>\<open>IndexError\<close>.
\<close>

fun shortlist_loop ::
  "nat list list \<Rightarrow> int list list \<Rightarrow> nat \<Rightarrow> nat list
     \<Rightarrow> int list \<times> int list \<times> int list \<Rightarrow> error + int list \<times> int list \<times> int list" where
  "shortlist_loop pos_labels shortlist_ind nl [] acc = Inr acc"
| "shortlist_loop pos_labels shortlist_ind nl (idx # rest) (rows, cols, dat) =
     (if length shortlist_ind \<le> idx then Inl IndexError
      else if length pos_labels \<le> idx then Inl IndexError
      else
        let indices = shortlist_ind ! idx;
            pos = pos_labels ! idx;
            s_pos = map int pos @ [int nl];
            neg = filter (\<lambda>x. x \<notin> set s_pos) indices;
            num_pos = length pos;
            num_neg = length neg
        in shortlist_loop pos_labels shortlist_ind nl rest
             (rows @ replicate (num_pos + num_neg) (int idx),
              cols @ (map int pos @ neg),
              dat @ (replicate num_pos 1 @ replicate num_neg (- 1))))"

text \<open>The triples the loop assembles, before any matrix is built.\<close>

definition shortlist_triples ::
  "('d, 'v) loader \<Rightarrow> int list list \<Rightarrow> error + int list \<times> int list \<times> int list" where
  "shortlist_triples L shortlist_ind =
     shortlist_loop (tolil_rows (Y (labels L))) shortlist_ind (num_labels L)
       [0..<num_instances L] ([], [], [])"

text \<open>The assignment \<^verbatim>\<open>self.labels.data = M\<close>: the loader with its label matrix
  replaced (the new matrix holds integers whatever the old one held).\<close>

definition with_label_matrix :: "('d, 'v) loader \<Rightarrow> 'w spmatrix \<Rightarrow> ('d, 'w) loader" where
  "with_label_matrix L M =
     \<lparr>feature_type = feature_type L, norm = norm L, features = features L,
      labels = \<lparr>Y = M\<rparr>, batch_size = batch_size L, start_index = start_index L,
      end_index = end_index L, batch_order = batch_order L, mode = mode L,
      valid_labels = valid_labels L, num_valid_labels = num_valid_labels L,
      batches = batches L, num_labels_orig = num_labels_orig L\<rparr>"

text \<open>An exception leaves the loader as it is at the raise (\<open>Inl (e, L)\<close>); a normal
  return gives the loader with the new matrix. \<^verbatim>\<open>shortlist_sim\<close> is not read.\<close>

definition update_data_shortlist ::
  "('d, 'v) loader \<Rightarrow> int list list \<Rightarrow> 's \<Rightarrow> (error \<times> ('d, 'v) loader) + ('d, int) loader" where
  "update_data_shortlist L shortlist_ind shortlist_sim =
     (case shortlist_triples L shortlist_ind of
        Inl e \<Rightarrow> Inl (e, L)
      | Inr (rows, cols, dat) \<Rightarrow>
          (case csc_matrix dat rows cols (num_instances L, num_labels L) of
             Inl e \<Rightarrow> Inl (e, L)
           | Inr M \<Rightarrow> Inr (with_label_matrix L M)))"

text \<open>The triples emitted for one row, and the candidates kept as negatives.\<close>

definition row_triples :: "int list \<times> int list \<times> int list \<Rightarrow> nat \<Rightarrow> (int \<times> int) list" where
  "row_triples t i =
     (case t of (rows, cols, dat) \<Rightarrow>
        map snd (filter (\<lambda>(r, cv). r = int i) (zip rows (zip cols dat))))"

definition negatives :: "nat list \<Rightarrow> nat \<Rightarrow> int list \<Rightarrow> int list" where
  "negatives P sentinel C = filter (\<lambda>x. x \<notin> int ` set P \<union> {int sentinel}) C"

subsection \<open>Checkpoint: \<^verbatim>\<open>save\<close> and \<^verbatim>\<open>load\<close>\<close>

text \<open>The pickled dictionary, and the files that hold such pickles.\<close>

record ckpt =
  ck_num_labels :: nat
  ck_num_labels_orig :: nat
  ck_valid_labels :: "nat list option"

type_synonym files = "string \<rightharpoonup> ckpt"

definition save :: "('d, 'v) loader \<Rightarrow> files \<Rightarrow> string \<Rightarrow> files" where
  "save L fs fname =
     fs(fname \<mapsto> \<lparr>ck_num_labels = num_labels L, ck_num_labels_orig = num_labels_orig L,
                     ck_valid_labels = valid_labels L\<rparr>)"

text \<open>
  \<^verbatim>\<open>DataloaderBase\<close> declares \<^verbatim>\<open>num_instances\<close>, \<^verbatim>\<open>num_features\<close>,
  \<^verbatim>\<open>num_labels\<close> and \<^verbatim>\<open>num_batches\<close> with \<^verbatim>\<open>@property\<close> and no setter. Assigning
  to such a name on an instance raises \<^verbatim>\<open>AttributeError\<close>; any other name is stored
  on the instance.
\<close>

definition readonly_properties :: "string list" where
  "readonly_properties = [''num_instances'', ''num_features'', ''num_labels'', ''num_batches'']"

definition check_setattr :: "string \<Rightarrow> error + unit" where
  "check_setattr name =
     (if name \<in> set readonly_properties then Inl (AttributeError name) else Inr ())"

text \<open>
  \<^verbatim>\<open>
  state = pickle.load(open(fname, 'rb'))
  self.num_labels = state['num_labels']
  self.num_labels_ = state['num_labels_']
  self.valid_labels = state['valid_labels']
  \<close>
\<close>

definition load :: "('d, 'v) loader \<Rightarrow> files \<Rightarrow> string \<Rightarrow> error + ('d, 'v) loader" where
  "load L fs fname =
     (case fs fname of
        None \<Rightarrow> Inl FileNotFoundError
      | Some state \<Rightarrow>
          (case check_setattr ''num_labels'' of
             Inl e \<Rightarrow> Inl e
           | Inr _ \<Rightarrow>
               (case check_setattr ''num_labels_'' of
                  Inl e \<Rightarrow> Inl e
                | Inr _ \<Rightarrow>
                    (case check_setattr ''valid_labels'' of
                       Inl e \<Rightarrow> Inl e
                     | Inr _ \<Rightarrow>
                         Inr (L\<lparr>num_labels_orig := ck_num_labels_orig state,
                                 valid_labels := ck_valid_labels state\<rparr>)))))"

subsection \<open>Construction: \<^verbatim>\<open>__init__\<close> and \<^verbatim>\<open>construct\<close>\<close>

text \<open>The constructor's arguments.\<close>

record config =
  c_data_dir :: string
  c_dataset :: string
  c_feat_fname :: string
  c_label_fname :: string
  c_batch_size :: int
  c_feature_type :: string
  c_mode :: string
  c_batch_order :: string
  c_norm :: "string option"
  c_start_index :: int
  c_end_index :: int

text \<open>
  The external collaborators construction calls: joining paths, reading the label file
  (directory, file name, sparse format), reading sparse or dense features, and
  normalizing features. Each reader may fail with an error of its own.
\<close>

record ('d, 'v) env =
  path_join :: "string \<Rightarrow> string \<Rightarrow> string"
  read_labels :: "string \<Rightarrow> string \<Rightarrow> string \<Rightarrow> error + 'v LabelsBase"
  read_sparse :: "string \<Rightarrow> string \<Rightarrow> error + 'd features"
  read_dense :: "string \<Rightarrow> string \<Rightarrow> error + 'd features"
  normalize :: "string \<Rightarrow> 'd features \<Rightarrow> error + 'd features"

definition load_features ::
  "('d, 'v) env \<Rightarrow> config \<Rightarrow> string \<Rightarrow> string \<Rightarrow> error + 'd features" where
  "load_features E cfg data_dir fname =
     (if c_feature_type cfg = ''sparse'' then read_sparse E data_dir fname
      else if c_feature_type cfg = ''dense'' then read_dense E data_dir fname
      else Inl (NotImplementedError ''Unknown feature type!''))"

definition load_labels ::
  "('d, 'v) env \<Rightarrow> config \<Rightarrow> string \<Rightarrow> string \<Rightarrow> error + 'v LabelsBase" where
  "load_labels E cfg data_dir fname =
     (let format = (if c_batch_order cfg = ''labels'' then ''csc'' else ''csr'')
      in read_labels E data_dir fname format)"

definition load_data ::
  "('d, 'v) env \<Rightarrow> config \<Rightarrow> string \<Rightarrow> string \<Rightarrow> string
     \<Rightarrow> error + 'd features \<times> 'v LabelsBase" where
  "load_data E cfg data_dir fname_f fname_l =
     (case load_labels E cfg data_dir fname_l of
        Inl e \<Rightarrow> Inl e
      | Inr lb \<Rightarrow>
          (case load_features E cfg data_dir fname_f of
             Inl e \<Rightarrow> Inl e
           | Inr fts \<Rightarrow>
               (case c_norm cfg of
                  None \<Rightarrow> Inr (fts, lb)
                | Some n \<Rightarrow>
                    (case normalize E n fts of
                       Inl e \<Rightarrow> Inl e
                     | Inr fts' \<Rightarrow> Inr (fts', lb)))))"

text \<open>
  The label-range step of \<^verbatim>\<open>construct\<close>, lines 108 to 113: it gives the new
  \<^verbatim>\<open>end_index\<close>, the labels and \<^verbatim>\<open>valid_labels\<close>.
  \<^verbatim>\<open>
  if self.mode == 'train':
      if self.start_index != 0 or self.end_index != -1:
          self.end_index = self.num_labels if self.end_index == -1 else self.end_index
          self.labels = self.labels[:, self.start_index: self.end_index]
      self.valid_labels = self.labels.remove_invalid()
  \<close>
\<close>

definition restrict_labels ::
  "config \<Rightarrow> 'v LabelsBase \<Rightarrow> int \<times> 'v LabelsBase \<times> nat list option" where
  "restrict_labels cfg lb =
     (if c_mode cfg = ''train'' then
        (let (e, lb1) =
               (if c_start_index cfg \<noteq> 0 \<or> c_end_index cfg \<noteq> - 1
                then (let e = (if c_end_index cfg = - 1 then int (labels_num_labels lb)
                               else c_end_index cfg)
                      in (e, getitem_cols lb (c_start_index cfg) e))
                else (c_end_index cfg, lb));
             (valid, lb2) = remove_invalid lb1
         in (e, lb2, Some valid))
      else (c_end_index cfg, lb, None))"

text \<open>\<^verbatim>\<open>__init__\<close> stores its arguments and calls \<^verbatim>\<open>construct\<close>; an exception
  there leaves no loader.\<close>

definition construct :: "('d, 'v) env \<Rightarrow> config \<Rightarrow> error + ('d, 'v) loader" where
  "construct E cfg =
     (let data_dir = path_join E (c_data_dir cfg) (c_dataset cfg)
      in case load_data E cfg data_dir (c_feat_fname cfg) (c_label_fname cfg) of
           Inl e \<Rightarrow> Inl e
         | Inr (fts, lb) \<Rightarrow>
             (let nl_orig = snd (shape (Y lb));
                  (e, lb', valid) = restrict_labels cfg lb
              in gen_batches
                   \<lparr>feature_type = c_feature_type cfg, norm = c_norm cfg, features = fts,
                    labels = lb', batch_size = c_batch_size cfg,
                    start_index = c_start_index cfg, end_index = e,
                    batch_order = c_batch_order cfg, mode = c_mode cfg,
                    valid_labels = valid, num_valid_labels = None, batches = None,
                    num_labels_orig = nl_orig\<rparr>))"

subsection \<open>What the loops produce, step by step\<close>

text \<open>The item \<^verbatim>\<open>_create_label_batch\<close> appends for one label: a vector with \<open>1\<close> at
  the stored rows of the label's column and \<open>-1\<close> elsewhere.\<close>

definition target_item :: "('d, 'v) loader \<Rightarrow> nat \<Rightarrow> 'd label_item" where
  "target_item L j =
     \<lparr>item_ind = None, item_data = f_data (features L),
      item_Y = map (\<lambda>r. if r \<in> set (col_indices (Y (labels L)) j) then 1 else - 1)
                   [0..<num_instances L]\<rparr>"

text \<open>The positive set of a row in the spec's words, "the current true-positive label
  indices" of the instance: the columns at which the row holds a positive value.\<close>

definition positive_cols :: "('v::{zero, ord}) spmatrix \<Rightarrow> nat \<Rightarrow> nat list" where
  "positive_cols M i = filter (\<lambda>j. 0 < value_at M i j) [0..<ncols M]"

text \<open>The triples \<open>(row, column, value)\<close> one pass of the shortlist loop appends.\<close>

definition emitted ::
  "nat list list \<Rightarrow> int list list \<Rightarrow> nat \<Rightarrow> nat \<Rightarrow> (int \<times> int \<times> int) list" where
  "emitted pos_labels shortlist_ind nl idx =
     map (\<lambda>p. (int idx, int p, 1)) (pos_labels ! idx)
     @ map (\<lambda>c. (int idx, c, - 1)) (negatives (pos_labels ! idx) nl (shortlist_ind ! idx))"

text \<open>The loader as \<^verbatim>\<open>construct\<close> has set it up when it calls \<^verbatim>\<open>_gen_batches\<close>:
  the constructor's arguments, the features, and the given labels, end index, valid labels
  and original label count.\<close>

definition assembled ::
  "config \<Rightarrow> 'd features \<Rightarrow> 'v LabelsBase \<Rightarrow> int \<Rightarrow> nat list option \<Rightarrow> nat
     \<Rightarrow> ('d, 'v) loader" where
  "assembled cfg fts lb e valid n_orig =
     \<lparr>feature_type = c_feature_type cfg, norm = c_norm cfg, features = fts,
      labels = lb, batch_size = c_batch_size cfg,
      start_index = c_start_index cfg, end_index = e,
      batch_order = c_batch_order cfg, mode = c_mode cfg,
      valid_labels = valid, num_valid_labels = None, batches = None,
      num_labels_orig = n_orig\<rparr>"

subsection \<open>Concrete scenarios\<close>

text \<open>Scenario 1 of the spec: four instances, three labels, positives at
  \<open>(0,0)\<close>, \<open>(1,1)\<close>, \<open>(2,2)\<close>, label-major batches of size two.\<close>

definition scenario_labels :: "int LabelsBase" where
  "scenario_labels = \<lparr>Y = \<lparr>nrows = 4, columns = [[(0, 1)], [(1, 1)], [(2, 1)]]\<rparr>\<rparr>"

definition scenario_features :: "unit features" where
  "scenario_features = \<lparr>f_num_instances = 4, f_num_features = 2, f_data = ()\<rparr>"

definition scenario_loader :: "(unit, int) loader" where
  "scenario_loader =
     \<lparr>feature_type = ''sparse'', norm = Some ''l2'', features = scenario_features,
      labels = scenario_labels, batch_size = 2, start_index = 0, end_index = - 1,
      batch_order = ''labels'', mode = ''train'', valid_labels = Some [0, 1, 2],
      num_valid_labels = None, batches = Some [[0, 1], [2]], num_labels_orig = 3\<rparr>"

text \<open>A shortlist loader: two instances, three labels (the sentinel is 3), positives at
  \<open>(0,0)\<close> and \<open>(1,2)\<close>.\<close>

definition shortlist_loader :: "(unit, int) loader" where
  "shortlist_loader =
     \<lparr>feature_type = ''sparse'', norm = Some ''l2'',
      features = \<lparr>f_num_instances = 2, f_num_features = 2, f_data = ()\<rparr>,
      labels = \<lparr>Y = \<lparr>nrows = 2, columns = [[(0, 1)], [], [(1, 1)]]\<rparr>\<rparr>,
      batch_size = 1, start_index = 0, end_index = - 1,
      batch_order = ''instances'', mode = ''predict'', valid_labels = None,
      num_valid_labels = None, batches = Some [[0], [1]], num_labels_orig = 3\<rparr>"

text \<open>The shortlist loader after one round of mining with the candidates
  \<open>[0, 1, 3]\<close> and \<open>[1, 2, 3]\<close>: label 1 is now a stored negative of both
  instances.\<close>

definition updated_loader :: "(unit, int) loader" where
  "updated_loader =
     \<lparr>feature_type = ''sparse'', norm = Some ''l2'',
      features = \<lparr>f_num_instances = 2, f_num_features = 2, f_data = ()\<rparr>,
      labels = \<lparr>Y = \<lparr>nrows = 2, columns = [[(0, 1)], [(0, - 1), (1, - 1)], [(1, 1)]]\<rparr>\<rparr>,
      batch_size = 1, start_index = 0, end_index = - 1,
      batch_order = ''instances'', mode = ''predict'', valid_labels = None,
      num_valid_labels = None, batches = Some [[0], [1]], num_labels_orig = 3\<rparr>"

text \<open>Scenario 3 of the spec: a label file with five labels, the third without any
  positive, read by collaborators that always succeed.\<close>

definition five_labels :: "int LabelsBase" where
  "five_labels =
     \<lparr>Y = \<lparr>nrows = 4,
            columns = [[(0, 1)], [(1, 1)], [], [(2, 1), (3, 1)], [(0, 1)]]\<rparr>\<rparr>"

definition demo_env :: "(unit, int) env" where
  "demo_env =
     \<lparr>path_join = (\<lambda>a b. a @ ''/'' @ b),
      read_labels = (\<lambda>d f fmt. Inr five_labels),
      read_sparse = (\<lambda>d f. Inr scenario_features),
      read_dense = (\<lambda>d f. Inr scenario_features),
      normalize = (\<lambda>n fts. Inr fts)\<rparr>"

definition demo_config :: config where
  "demo_config =
     \<lparr>c_data_dir = ''data'', c_dataset = ''EURLex-4K'', c_feat_fname = ''trn_X_Xf.txt'',
      c_label_fname = ''trn_X_Y.txt'', c_batch_size = 2, c_feature_type = ''sparse'',
      c_mode = ''train'', c_batch_order = ''labels'', c_norm = Some ''l2'',
      c_start_index = 0, c_end_index = - 1\<rparr>"

section \<open>Properties\<close>

subsection \<open>The batch partition\<close>

lemma cumsum_from_nth:
  "i < length xs \<Longrightarrow> cumsum_from a xs ! i = a + sum_list (take (Suc i) xs)"
proof (induction xs arbitrary: a i)
  case Nil then show ?case by simp
next
  case (Cons x xs)
  show ?case
  proof (cases i)
    case 0 then show ?thesis by simp
  next
    case (Suc m)
    with Cons.prems have "m < length xs" by simp
    from Cons.IH[OF this, of "a + x"] Suc show ?thesis by simp
  qed
qed

lemma sum_list_take_sizes:
  "i \<le> r + s \<Longrightarrow> sum_list (take i (replicate r (Suc q) @ replicate s q)) = i * q + min i r"
  by (cases "i \<le> r") (auto simp: min_def sum_list_replicate algebra_simps)

lemma py_slice_upt:
  "a \<le> b \<Longrightarrow> b \<le> n \<Longrightarrow> py_slice [0..<n] (int a) (int b) = [a..<b]"
  by (simp add: py_slice_def slice_bound_def Let_def min_def take_upt drop_upt)

lemma concat_upt_chunks:
  "(\<And>i. i < k \<Longrightarrow> f i \<le> f (Suc i)) \<Longrightarrow> concat (map (\<lambda>i. [f i..<f (Suc i)]) [0..<k]) = [f 0..<f k]"
proof (induction k)
  case 0 then show ?case by simp
next
  case (Suc k)
  have mono: "f 0 \<le> f k" using Suc.prems
    by (induction k) (auto intro: le_trans simp: less_Suc_eq)
  have "concat (map (\<lambda>i. [f i..<f (Suc i)]) [0..<Suc k]) = [f 0..<f k] @ [f k..<f (Suc k)]"
    using Suc by simp
  also have "\<dots> = [f 0..<f (Suc k)]"
    using mono Suc.prems[of k] by (metis lessI upt_add_eq_append le_Suc_ex)
  finally show ?case .
qed

lemma array_split_arange:
  assumes "0 < k"
  shows "array_split (arange N) (int k) =
         Inr (map (\<lambda>i. [i * (N div k) + min i (N mod k) ..<
                          Suc i * (N div k) + min (Suc i) (N mod k)]) [0..<k])"
proof -
  let ?q = "N div k" and ?r = "N mod k"
  let ?sizes = "replicate ?r (Suc ?q) @ replicate (k - ?r) ?q"
  let ?d = "\<lambda>i. i * ?q + min i ?r"
  have r: "?r < k" using assms by simp
  have dp: "cumsum (0 # ?sizes) ! i = ?d i" if "i \<le> k" for i
  proof -
    have "i < length (0 # ?sizes)" using that r by simp
    then have "cumsum (0 # ?sizes) ! i = sum_list (take (Suc i) (0 # ?sizes))"
      unfolding cumsum_def by (simp only: cumsum_from_nth)
    also have "\<dots> = sum_list (take i ?sizes)" by simp
    also have "\<dots> = ?d i" using that r by (intro sum_list_take_sizes) simp
    finally show ?thesis .
  qed
  have dk: "?d k = N" using r
    by (simp add: min_def)
  have mono: "?d i \<le> ?d (Suc i)" for i by (simp add: min_def)
  have bound: "?d (Suc i) \<le> N" if "i < k" for i
  proof -
    have "?d (Suc i) \<le> ?d k" using that
      by (intro add_mono mult_le_mono1) (auto simp: min_def)
    then show ?thesis using dk by simp
  qed
  have slice: "py_slice (arange N) (int (cumsum (0 # ?sizes) ! i)) (int (cumsum (0 # ?sizes) ! (i + 1)))
               = [?d i..<?d (Suc i)]" if "i < k" for i
  proof -
    have a: "cumsum (0 # ?sizes) ! i = ?d i" using dp[of i] that by simp
    have b: "cumsum (0 # ?sizes) ! (i + 1) = ?d (Suc i)" using dp[of "Suc i"] that by simp
    show ?thesis unfolding a b arange_def by (rule py_slice_upt[OF mono bound[OF that]])
  qed
  show ?thesis
    using assms slice by (simp add: array_split_def Let_def arange_def cong: map_cong)
qed


lemma num_batches_ceil:
  fixes N B :: int
  assumes "0 < N" "0 < B"
  shows "N div B + (if N mod B = 0 then 0 else 1) = (N + B - 1) div B"
    and "0 < N div B + (if N mod B = 0 then 0 else 1)"
proof -
  have d: "N = B * (N div B) + N mod B" by simp
  have m: "0 \<le> N mod B" "N mod B < B" using assms by simp_all
  show "N div B + (if N mod B = 0 then 0 else 1) = (N + B - 1) div B"
  proof (cases "N mod B = 0")
    case True
    then have "N + B - 1 = B * (N div B) + (B - 1)" using d by simp
    then have "(N + B - 1) div B = N div B + (B - 1) div B"
      using assms by (metis div_mult_self2 add.commute less_irrefl)
    then show ?thesis using True assms by (simp add: div_pos_pos_trivial)
  next
    case False
    have "N + B - 1 = B * (N div B + 1) + (N mod B - 1)" using d by (simp add: algebra_simps)
    then have "(N + B - 1) div B = (N div B + 1) + (N mod B - 1) div B"
      using assms by (metis div_mult_self2 add.commute less_irrefl)
    moreover have "(N mod B - 1) div B = 0" using m False by (simp add: div_pos_pos_trivial)
    ultimately show ?thesis using False by simp
  qed
  have "0 \<le> N div B" using assms by (simp add: pos_imp_zdiv_nonneg_iff)
  moreover have "N mod B \<noteq> 0" if "N div B = 0" using d assms that by auto
  ultimately show "0 < N div B + (if N mod B = 0 then 0 else 1)"
    by (cases "N div B = 0") simp_all
qed


lemma split_props:
  fixes N k :: nat
  assumes "0 < k"
  defines "bs \<equiv> map (\<lambda>i. [i * (N div k) + min i (N mod k) ..<
                          Suc i * (N div k) + min (Suc i) (N mod k)]) [0..<k]"
  shows "length bs = k"
    and "\<forall>i<k. length (bs ! i) = N div k + (if i < N mod k then 1 else 0)"
    and "concat bs = [0..<N]"
    and "sum_list (map length bs) = N"
    and "\<forall>c\<in>set bs. \<forall>d\<in>set bs. length c \<le> length d + 1"
proof -
  let ?d = "\<lambda>i. i * (N div k) + min i (N mod k)"
  show len: "length bs = k" by (simp add: bs_def)
  show nth: "\<forall>i<k. length (bs ! i) = N div k + (if i < N mod k then 1 else 0)"
    by (auto simp: bs_def min_def)
  have "concat bs = [?d 0..<?d k]"
    unfolding bs_def by (rule concat_upt_chunks) (simp add: min_def)
  moreover have "N mod k < k" using assms(1) by simp
  then have "?d k = N" by (simp add: min_def)
  ultimately show cc: "concat bs = [0..<N]" by simp
  have "sum_list (map length bs) = length (concat bs)" by (simp add: length_concat)
  then show "sum_list (map length bs) = N" using cc by simp
  show "\<forall>c\<in>set bs. \<forall>d\<in>set bs. length c \<le> length d + 1"
  proof (intro ballI)
    fix c d assume "c \<in> set bs" "d \<in> set bs"
    then obtain i j where "i < k" "c = bs ! i" "j < k" "d = bs ! j"
      using len by (metis in_set_conv_nth)
    then show "length c \<le> length d + 1" using nth by simp
  qed
qed


lemma gen_batches_plan:
  fixes L :: "('d, 'v) loader"
  assumes L: "batch_order L = ''labels'' \<and> num_labels L = N \<or>
              batch_order L = ''instances'' \<and> num_instances L = N"
    and B: "batch_size L = B" and pos: "0 < N" "0 < B"
  shows "gen_batches L =
         Inr (L\<lparr>batches := Some (map (\<lambda>i. [i * (N div nat ((int N + B - 1) div B))
                                              + min i (N mod nat ((int N + B - 1) div B)) ..<
                                            Suc i * (N div nat ((int N + B - 1) div B))
                                              + min (Suc i) (N mod nat ((int N + B - 1) div B))])
                                    [0..<nat ((int N + B - 1) div B)])\<rparr>)"
proof -
  let ?k = "nat ((int N + B - 1) div B)"
  have c: "int N div B + (if int N mod B = 0 then 0 else 1) = (int N + B - 1) div B"
    and p: "0 < int N div B + (if int N mod B = 0 then 0 else 1)"
    using num_batches_ceil[of "int N" B] pos by simp_all
  have k: "0 < ?k" "int ?k = (int N + B - 1) div B" using c p by simp_all
  have split: "array_split (arange N) (int N div B + (if int N mod B = 0 then 0 else 1))
        = Inr (map (\<lambda>i. [i * (N div ?k) + min i (N mod ?k) ..<
                          Suc i * (N div ?k) + min (Suc i) (N mod ?k)]) [0..<?k])"
    using array_split_arange[OF k(1), of N] k(2) c by simp
  from L show ?thesis
  proof
    assume "batch_order L = ''labels'' \<and> num_labels L = N"
    then show ?thesis using B pos split by (simp add: gen_batches_def Let_def)
  next
    assume "batch_order L = ''instances'' \<and> num_instances L = N"
    then show ?thesis using B pos split by (simp add: gen_batches_def Let_def)
  qed
qed

text \<open>
  Claim C1. For every total count \<open>N > 0\<close> and batch size \<open>B > 0\<close>, the partition
  that \<^verbatim>\<open>_gen_batches\<close> stores (over the labels or over the instances, by batch order)
  has \<open>ceil(N/B)\<close> chunks: their number is \<open>(N + B - 1) div B\<close>, the least \<open>k\<close>
  with \<open>N \<le> k * B\<close>. The chunk sizes sum to \<open>N\<close>; chunk \<open>i\<close> has
  \<open>N div k\<close> elements and one more when \<open>i < N mod k\<close>, so any two sizes differ by
  at most one; the chunks concatenated in order are the ascending range \<open>[0, N)\<close>. Two
  loaders with the same \<open>N\<close> and \<open>B\<close> get the same partition.
\<close>

theorem gen_batches_partition:
  fixes L L' :: "('d, 'v) loader"
  assumes L: "batch_order L = ''labels'' \<and> num_labels L = N \<or>
              batch_order L = ''instances'' \<and> num_instances L = N"
    and L': "batch_order L' = ''labels'' \<and> num_labels L' = N \<or>
             batch_order L' = ''instances'' \<and> num_instances L' = N"
    and B: "batch_size L = B" "batch_size L' = B"
    and pos: "0 < N" "0 < B"
  shows "\<exists>bs. gen_batches L = Inr (L\<lparr>batches := Some bs\<rparr>)
            \<and> gen_batches L' = Inr (L'\<lparr>batches := Some bs\<rparr>)
            \<and> int (length bs) = (int N + B - 1) div B
            \<and> (int (length bs) - 1) * B < int N \<and> int N \<le> int (length bs) * B
            \<and> sum_list (map length bs) = N
            \<and> (\<forall>i<length bs. length (bs ! i)
                   = N div length bs + (if i < N mod length bs then 1 else 0))
            \<and> (\<forall>c\<in>set bs. \<forall>d\<in>set bs. length c \<le> length d + 1)
            \<and> concat bs = [0..<N]"
proof -
  let ?k = "nat ((int N + B - 1) div B)"
  let ?bs = "map (\<lambda>i. [i * (N div ?k) + min i (N mod ?k) ..<
                        Suc i * (N div ?k) + min (Suc i) (N mod ?k)]) [0..<?k]"
  have c: "int N div B + (if int N mod B = 0 then 0 else 1) = (int N + B - 1) div B"
    and p: "0 < int N div B + (if int N mod B = 0 then 0 else 1)"
    using num_batches_ceil[of "int N" B] pos by simp_all
  have k: "0 < ?k" and ik: "int ?k = (int N + B - 1) div B" using c p by simp_all
  note pr = split_props[OF k, of N]
  have len: "length ?bs = ?k" by simp
  have g: "gen_batches L = Inr (L\<lparr>batches := Some ?bs\<rparr>)"
    by (rule gen_batches_plan[OF L B(1) pos])
  have g': "gen_batches L' = Inr (L'\<lparr>batches := Some ?bs\<rparr>)"
    by (rule gen_batches_plan[OF L' B(2) pos])
  have lo: "((int N + B - 1) div B - 1) * B < int N"
  proof -
    have "int N + B - 1 = (int N + B - 1) div B * B + (int N + B - 1) mod B" by simp
    moreover have "0 \<le> (int N + B - 1) mod B" using pos by simp
    ultimately have "(int N + B - 1) div B * B \<le> int N + B - 1" by linarith
    then show ?thesis by (simp add: algebra_simps)
  qed
  have hi: "int N \<le> (int N + B - 1) div B * B"
  proof -
    have "int N + B - 1 = (int N + B - 1) div B * B + (int N + B - 1) mod B" by simp
    moreover have "(int N + B - 1) mod B < B" using pos by simp
    ultimately show ?thesis by linarith
  qed
  show ?thesis
  proof (intro exI[of _ ?bs] conjI)
    show "gen_batches L = Inr (L\<lparr>batches := Some ?bs\<rparr>)" by (rule g)
    show "gen_batches L' = Inr (L'\<lparr>batches := Some ?bs\<rparr>)" by (rule g')
    show "int (length ?bs) = (int N + B - 1) div B" using ik by simp
    show "(int (length ?bs) - 1) * B < int N" using lo ik by simp
    show "int N \<le> int (length ?bs) * B" using hi ik by simp
    show "sum_list (map length ?bs) = N" by (rule pr(4))
    show "\<forall>i<length ?bs. length (?bs ! i)
            = N div length ?bs + (if i < N mod length ?bs then 1 else 0)"
      using pr(2) unfolding len .
    show "\<forall>c\<in>set ?bs. \<forall>d\<in>set ?bs. length c \<le> length d + 1" by (rule pr(5))
    show "concat ?bs = [0..<N]" by (rule pr(3))
  qed
qed

theorem gen_batches_partition_witness:
  "(batch_order scenario_loader = ''labels'' \<and> num_labels scenario_loader = 3 \<or>
    batch_order scenario_loader = ''instances'' \<and> num_instances scenario_loader = 3)
   \<and> batch_size scenario_loader = 2 \<and> (0::nat) < 3 \<and> (0::int) < 2
   \<and> (\<exists>bs. gen_batches scenario_loader = Inr (scenario_loader\<lparr>batches := Some bs\<rparr>)
            \<and> int (length bs) = 2 \<and> sum_list (map length bs) = 3
            \<and> concat bs = [0..<3])"
proof -
  have h: "batch_order scenario_loader = ''labels'' \<and> num_labels scenario_loader = 3 \<or>
           batch_order scenario_loader = ''instances'' \<and> num_instances scenario_loader = 3"
    by (simp add: scenario_loader_def scenario_labels_def num_labels_def
        labels_num_labels_def ncols_def)
  have b: "batch_size scenario_loader = 2" by (simp add: scenario_loader_def)
  have p: "(0::nat) < 3" "(0::int) < 2" by simp_all
  from gen_batches_partition[OF h h b b p] obtain bs where
    "gen_batches scenario_loader = Inr (scenario_loader\<lparr>batches := Some bs\<rparr>)"
    "int (length bs) = (int 3 + 2 - 1) div 2"
    "sum_list (map length bs) = 3" "concat bs = [0..<3]"
    by blast
  then have "\<exists>bs. gen_batches scenario_loader = Inr (scenario_loader\<lparr>batches := Some bs\<rparr>)
            \<and> int (length bs) = 2 \<and> sum_list (map length bs) = 3 \<and> concat bs = [0..<3]"
    by (intro exI[of _ bs]) simp
  with h b p show ?thesis by blast
qed

subsection \<open>One-vs-all targets\<close>

lemma fold_update_props:
  "\<forall>i\<in>set idxs. i < length arr \<Longrightarrow>
   length (fold (\<lambda>i a. a[i := v]) idxs arr) = length arr \<and>
   (\<forall>r<length arr. fold (\<lambda>i a. a[i := v]) idxs arr ! r = (if r \<in> set idxs then v else arr ! r))"
proof (induction idxs arbitrary: arr)
  case Nil then show ?case by simp
next
  case (Cons k idxs)
  have "\<forall>i\<in>set idxs. i < length (arr[k := v])" using Cons.prems by simp
  from Cons.IH[OF this] Cons.prems show ?case by (auto simp: nth_list_update)
qed

lemma setitem_indices_eq:
  assumes "\<forall>i\<in>set idxs. i < n"
  shows "setitem_indices (replicate n (- 1)) idxs 1
         = Inr (map (\<lambda>r. if r \<in> set idxs then 1 else - 1) [0..<n])"
proof -
  let ?a = "replicate n (- 1 :: int)"
  have b: "\<forall>i\<in>set idxs. i < length ?a" using assms by simp
  note p = fold_update_props[OF b, of 1]
  have "fold (\<lambda>i a. a[i := 1]) idxs ?a = map (\<lambda>r. if r \<in> set idxs then 1 else - 1) [0..<n]"
    using p by (intro nth_equalityI) auto
  moreover have "\<not> (\<exists>i\<in>set idxs. length ?a \<le> i)" using assms by auto
  ultimately show ?thesis unfolding setitem_indices_def by simp
qed

lemma label_batch_loop_eq:
  assumes "\<forall>j\<in>set chunk. j < num_labels L"
    and "\<forall>j\<in>set chunk. \<forall>r\<in>set (col_indices (Y (labels L)) j). r < num_instances L"
  shows "label_batch_loop L chunk acc = (Inr (acc @ map (target_item L) chunk), L)"
  using assms
proof (induction chunk arbitrary: acc)
  case Nil then show ?case by simp
next
  case (Cons j chunk)
  have j: "j < ncols (Y (labels L))" using Cons.prems(1)
    by (simp add: num_labels_def labels_num_labels_def)
  have sel: "index_select_label (labels L) j
             = (Inr \<lparr>nrows = nrows (Y (labels L)), columns = [columns (Y (labels L)) ! j]\<rparr>, labels L)"
    using j by (simp add: index_select_label_def)
  have ci: "col_indices \<lparr>nrows = nrows (Y (labels L)), columns = [columns (Y (labels L)) ! j]\<rparr> 0
            = col_indices (Y (labels L)) j"
    by (simp add: col_indices_def)
  have rng: "\<forall>i\<in>set (col_indices (Y (labels L)) j). i < num_instances L"
    using Cons.prems(2) by simp
  have L: "L\<lparr>labels := labels L\<rparr> = L" by simp
  have IH: "label_batch_loop L chunk (acc @ [target_item L j])
            = (Inr ((acc @ [target_item L j]) @ map (target_item L) chunk), L)"
    using Cons.IH Cons.prems by simp
  show ?case
    using IH by (simp add: sel ci L setitem_indices_eq[OF rng] target_item_def del: label_item.simps)
qed

lemma count_ones:
  assumes "distinct idxs" "\<forall>i\<in>set idxs. i < n"
  shows "length (filter (\<lambda>x. x = 1) (map (\<lambda>r. if r \<in> set idxs then 1 else - 1 :: int) [0..<n]))
         = length idxs"
proof -
  have "length (filter (\<lambda>x. x = 1) (map (\<lambda>r. if r \<in> set idxs then 1 else - 1 :: int) [0..<n]))
        = length (filter (\<lambda>r. r \<in> set idxs) [0..<n])"
    by (simp add: filter_map o_def)
  also have "\<dots> = card ({r. r \<in> set idxs} \<inter> set [0..<n])"
    by (rule distinct_length_filter) simp
  also have "{r. r \<in> set idxs} \<inter> set [0..<n] = set idxs" using assms(2) by auto
  also have "card (set idxs) = length idxs" using assms(1) by (rule distinct_card)
  finally show ?thesis .
qed

lemma value_at_positive:
  fixes M :: "('v::{zero, order}) spmatrix"
  assumes "\<forall>(r, v)\<in>set (columns M ! j). 0 < v"
  shows "0 < value_at M r j \<longleftrightarrow> r \<in> set (col_indices M j)"
proof (cases "map_of (columns M ! j) r")
  case None
  then have "r \<notin> set (col_indices M j)" by (simp add: col_indices_def map_of_eq_None_iff)
  then show ?thesis using None by (simp add: value_at_def)
next
  case (Some v)
  then have "(r, v) \<in> set (columns M ! j)" by (rule map_of_SomeD)
  then have "0 < v" "r \<in> set (col_indices M j)" using assms by (auto simp: col_indices_def intro: rev_image_eqI)
  then show ?thesis using Some by (simp add: value_at_def)
qed

text \<open>
  Claim C2. In label-major one-vs-all mode, for a chunk of existing labels over a label
  matrix whose stored row positions lie below the instance count and are distinct within
  a column, \<^verbatim>\<open>_create_label_batch\<close> returns one item per label of the chunk. The
  vector of label \<open>j\<close> has length equal to the instance count, holds \<open>1\<close> exactly at
  the rows where column \<open>j\<close> has a stored entry and \<open>-1\<close> at every other row; where
  the stored values of the column are positive these are the rows with a positive entry.
  The number of \<open>1\<close>s is the number of stored entries of column \<open>j\<close>. The item of a
  label is the one that materializing this label alone gives: nothing is carried over from
  the labels before it.
\<close>

theorem create_label_batch_targets:
  fixes L :: "('d, 'v::{zero, order}) loader"
  assumes chunk: "\<forall>j\<in>set chunk. j < num_labels L"
    and rows: "\<forall>j\<in>set chunk. \<forall>r\<in>set (col_indices (Y (labels L)) j). r < num_instances L"
    and dist: "\<forall>j\<in>set chunk. distinct (col_indices (Y (labels L)) j)"
  shows "\<exists>items. create_label_batch L chunk = (Inr items, L) \<and> length items = length chunk \<and>
     (\<forall>k<length chunk.
        length (item_Y (items ! k)) = num_instances L
      \<and> (\<forall>r<num_instances L. item_Y (items ! k) ! r =
             (if r \<in> set (col_indices (Y (labels L)) (chunk ! k)) then 1 else - 1))
      \<and> ((\<forall>(r, v)\<in>set (columns (Y (labels L)) ! (chunk ! k)). 0 < v) \<longrightarrow>
           (\<forall>r<num_instances L. item_Y (items ! k) ! r =
             (if 0 < value_at (Y (labels L)) r (chunk ! k) then 1 else - 1)))
      \<and> length (filter (\<lambda>x. x = 1) (item_Y (items ! k)))
           = length (col_indices (Y (labels L)) (chunk ! k))
      \<and> fst (create_label_batch L [chunk ! k]) = Inr [items ! k])"
proof -
  let ?items = "map (target_item L) chunk"
  have run: "create_label_batch L chunk = (Inr ?items, L)"
    unfolding create_label_batch_def using label_batch_loop_eq[OF chunk rows, of "[]"] by simp
  have each: "length (item_Y (?items ! k)) = num_instances L
      \<and> (\<forall>r<num_instances L. item_Y (?items ! k) ! r =
             (if r \<in> set (col_indices (Y (labels L)) (chunk ! k)) then 1 else - 1))
      \<and> ((\<forall>(r, v)\<in>set (columns (Y (labels L)) ! (chunk ! k)). 0 < v) \<longrightarrow>
           (\<forall>r<num_instances L. item_Y (?items ! k) ! r =
             (if 0 < value_at (Y (labels L)) r (chunk ! k) then 1 else - 1)))
      \<and> length (filter (\<lambda>x. x = 1) (item_Y (?items ! k)))
           = length (col_indices (Y (labels L)) (chunk ! k))
      \<and> fst (create_label_batch L [chunk ! k]) = Inr [?items ! k]" if k: "k < length chunk" for k
  proof -
    let ?j = "chunk ! k"
    have mem: "?j \<in> set chunk" using k by simp
    have it: "?items ! k = target_item L ?j" using k by simp
    have yv: "item_Y (target_item L ?j)
              = map (\<lambda>r. if r \<in> set (col_indices (Y (labels L)) ?j) then 1 else - 1)
                    [0..<num_instances L]"
      by (simp add: target_item_def)
    have a: "length (item_Y (?items ! k)) = num_instances L" unfolding it yv by simp
    have b: "\<forall>r<num_instances L. item_Y (?items ! k) ! r =
             (if r \<in> set (col_indices (Y (labels L)) ?j) then 1 else - 1)"
      unfolding it yv by simp
    have c: "\<forall>r<num_instances L. item_Y (?items ! k) ! r =
             (if 0 < value_at (Y (labels L)) r ?j then 1 else - 1)"
      if "\<forall>(r, v)\<in>set (columns (Y (labels L)) ! ?j). 0 < v"
      using b value_at_positive[OF that] by simp
    have d: "length (filter (\<lambda>x. x = 1) (item_Y (?items ! k)))
           = length (col_indices (Y (labels L)) ?j)"
      unfolding it yv using dist rows mem by (intro count_ones) auto
    have "label_batch_loop L [?j] [] = (Inr ([] @ map (target_item L) [?j]), L)"
      using chunk rows mem by (intro label_batch_loop_eq) auto
    then have e: "fst (create_label_batch L [?j]) = Inr [?items ! k]"
      unfolding create_label_batch_def it by simp
    from a b c d e show ?thesis by blast
  qed
  have len: "length ?items = length chunk" by simp
  from run len each show ?thesis by blast
qed

theorem create_label_batch_targets_witness:
  "num_labels scenario_loader = 3 \<and> num_instances scenario_loader = 4
   \<and> col_indices (Y (labels scenario_loader)) 0 = [0]
   \<and> col_indices (Y (labels scenario_loader)) 1 = [1]
   \<and> (\<exists>items. create_label_batch scenario_loader [0, 1] = (Inr items, scenario_loader)
         \<and> length items = 2
         \<and> item_Y (items ! 0) ! 0 = 1 \<and> item_Y (items ! 0) ! 1 = - 1
         \<and> item_Y (items ! 1) ! 0 = - 1 \<and> item_Y (items ! 1) ! 1 = 1)"
proof -
  have h1: "\<forall>j\<in>set [0, 1]. j < num_labels scenario_loader"
    by (simp add: scenario_loader_def scenario_labels_def num_labels_def
        labels_num_labels_def ncols_def)
  have h2: "\<forall>j\<in>set [0, 1]. \<forall>r\<in>set (col_indices (Y (labels scenario_loader)) j).
          r < num_instances scenario_loader"
    by (simp add: scenario_loader_def scenario_labels_def scenario_features_def
        num_instances_def col_indices_def)
  have h3: "\<forall>j\<in>set [0, 1]. distinct (col_indices (Y (labels scenario_loader)) j)"
    by (simp add: scenario_loader_def scenario_labels_def col_indices_def)
  have n: "num_instances scenario_loader = 4"
    by (simp add: scenario_loader_def scenario_features_def num_instances_def)
  have c0: "set (col_indices (Y (labels scenario_loader)) 0) = {0}"
    and c1: "set (col_indices (Y (labels scenario_loader)) 1) = {1}"
    by (simp_all add: scenario_loader_def scenario_labels_def col_indices_def)
  from create_label_batch_targets[OF h1 h2 h3] obtain items where
    r: "create_label_batch scenario_loader [0, 1] = (Inr items, scenario_loader)"
    and l: "length items = length [0::nat, 1]"
    and e: "\<forall>k<length [0::nat, 1]. \<forall>r<num_instances scenario_loader. item_Y (items ! k) ! r =
             (if r \<in> set (col_indices (Y (labels scenario_loader)) ([0, 1] ! k)) then 1 else - 1)"
    by blast
  have e0: "\<forall>r<4. item_Y (items ! 0) ! r = (if r \<in> {0} then 1 else - 1)"
    using e[rule_format, of 0] n c0 by simp
  have e1: "\<forall>r<4. item_Y (items ! 1) ! r = (if r \<in> {1} then 1 else - 1)"
    using e[rule_format, of 1] n c1 by simp
  have "item_Y (items ! 0) ! 0 = 1" "item_Y (items ! 0) ! 1 = - 1"
       "item_Y (items ! 1) ! 0 = - 1" "item_Y (items ! 1) ! 1 = 1"
    using e0[rule_format, of 0] e0[rule_format, of 1] e1[rule_format, of 0] e1[rule_format, of 1]
    by simp_all
  moreover have "num_labels scenario_loader = 3"
    "col_indices (Y (labels scenario_loader)) 0 = [0]"
    "col_indices (Y (labels scenario_loader)) 1 = [1]"
    by (simp_all add: scenario_loader_def scenario_labels_def num_labels_def
        labels_num_labels_def ncols_def col_indices_def)
  ultimately show ?thesis using r l n by (intro conjI exI[of _ items]) simp_all
qed

subsection \<open>The shortlist update\<close>

lemma negatives_filter:
  "filter (\<lambda>x. x \<notin> set (map int P @ [int nl])) C = negatives P nl C"
  by (simp add: negatives_def)

lemma shortlist_loop_emits:
  assumes "\<forall>idx\<in>set idxs. idx < length shortlist_ind \<and> idx < length pos_labels"
    and "length rows = length cols" "length cols = length dat"
  shows "\<exists>rows' cols' dat'.
           shortlist_loop pos_labels shortlist_ind nl idxs (rows, cols, dat) = Inr (rows', cols', dat')
         \<and> length rows' = length cols' \<and> length cols' = length dat'
         \<and> zip rows' (zip cols' dat')
             = zip rows (zip cols dat) @ concat (map (emitted pos_labels shortlist_ind nl) idxs)"
  using assms
proof (induction idxs arbitrary: rows cols dat)
  case Nil then show ?case by simp
next
  case (Cons idx idxs)
  let ?P = "pos_labels ! idx"
  let ?N = "negatives ?P nl (shortlist_ind ! idx)"
  let ?rows = "rows @ replicate (length ?P + length ?N) (int idx)"
  let ?cols = "cols @ (map int ?P @ ?N)"
  let ?dat = "dat @ (replicate (length ?P) 1 @ replicate (length ?N) (- 1))"
  have ok: "idx < length shortlist_ind" "idx < length pos_labels" using Cons.prems(1) by simp_all
  have step: "shortlist_loop pos_labels shortlist_ind nl (idx # idxs) (rows, cols, dat)
              = shortlist_loop pos_labels shortlist_ind nl idxs (?rows, ?cols, ?dat)"
    using ok by (simp add: Let_def negatives_filter del: set_append set_map)
  have l1: "length ?rows = length ?cols" and l2: "length ?cols = length ?dat"
    using Cons.prems(2,3) by simp_all
  have z: "zip ?rows (zip ?cols ?dat)
           = zip rows (zip cols dat) @ emitted pos_labels shortlist_ind nl idx"
  proof -
    have "zip (replicate (length ?P + length ?N) (int idx))
              (zip (map int ?P @ ?N) (replicate (length ?P) 1 @ replicate (length ?N) (- 1)))
          = emitted pos_labels shortlist_ind nl idx"
      by (simp add: emitted_def replicate_add zip_replicate1 zip_replicate2 zip_map1 zip_map2
            map_zip_map map_zip_map2 zip_same_conv_map) 
    then show ?thesis using Cons.prems(2,3) by simp
  qed
  from Cons.IH[OF _ l1 l2] Cons.prems(1) obtain rows' cols' dat' where
    r: "shortlist_loop pos_labels shortlist_ind nl idxs (?rows, ?cols, ?dat) = Inr (rows', cols', dat')"
    and l: "length rows' = length cols'" "length cols' = length dat'"
    and e: "zip rows' (zip cols' dat')
            = zip ?rows (zip ?cols ?dat) @ concat (map (emitted pos_labels shortlist_ind nl) idxs)"
    by auto
  show ?case using step r l e z by simp
qed


lemma emitted_row: "\<forall>t\<in>set (emitted pos_labels shortlist_ind nl idx). fst t = int idx"
  by (auto simp: emitted_def)

lemma filter_row_emitted:
  "filter (\<lambda>(r, cv). r = int i) (concat (map (emitted pos_labels shortlist_ind nl) [0..<n]))
   = (if i < n then emitted pos_labels shortlist_ind nl i else [])"
proof (induction n)
  case 0 then show ?case by simp
next
  case (Suc n)
  have same: "filter (\<lambda>(r, cv). r = int i) (emitted pos_labels shortlist_ind nl i)
              = emitted pos_labels shortlist_ind nl i"
    using emitted_row[of pos_labels shortlist_ind nl i] by (auto simp: filter_id_conv)
  have other: "filter (\<lambda>(r, cv). r = int i) (emitted pos_labels shortlist_ind nl n) = []"
    if "i \<noteq> n"
    using emitted_row[of pos_labels shortlist_ind nl n] that by (auto simp: filter_empty_conv)
  show ?case
  proof (cases "i = n")
    case True then show ?thesis using Suc same by simp
  next
    case False then show ?thesis using Suc other by auto
  qed
qed

lemma tolil_rows_nth:
  "i < nrows M \<Longrightarrow> tolil_rows M ! i = filter (\<lambda>j. i \<in> set (col_indices M j)) [0..<ncols M]"
  by (simp add: tolil_rows_def)

lemma tolil_rows_props:
  assumes "i < nrows M"
  shows "distinct (tolil_rows M ! i)" and "\<forall>p\<in>set (tolil_rows M ! i). p < ncols M"
    and "set (tolil_rows M ! i) = {p. p < ncols M \<and> i \<in> set (col_indices M p)}"
  using assms by (auto simp: tolil_rows_nth)

lemma shortlist_triples_zip:
  assumes wf: "nrows (Y (labels L)) = num_instances L"
    and len: "num_instances L \<le> length shortlist_ind"
  shows "\<exists>rows cols dat. shortlist_triples L shortlist_ind = Inr (rows, cols, dat)
          \<and> length rows = length cols \<and> length cols = length dat
          \<and> zip rows (zip cols dat)
              = concat (map (emitted (tolil_rows (Y (labels L))) shortlist_ind (num_labels L))
                            [0..<num_instances L])"
proof -
  have "\<forall>idx\<in>set [0..<num_instances L].
          idx < length shortlist_ind \<and> idx < length (tolil_rows (Y (labels L)))"
    using wf len by (simp add: tolil_rows_def)
  from shortlist_loop_emits[OF this, of "[]" "[]" "[]" "num_labels L"]
  show ?thesis by (simp add: shortlist_triples_def)
qed

lemma negatives_set:
  "set (negatives P nl C) = set C - (int ` set P \<union> {int nl})"
  by (auto simp: negatives_def)

lemma row_triples_emitted:
  assumes z: "zip rows (zip cols dat) = concat (map (emitted pos sl nl) [0..<n])"
    and i: "i < n"
  shows "row_triples (rows, cols, dat) i
         = map (\<lambda>p. (int p, 1)) (pos ! i)
           @ map (\<lambda>c. (c, - 1)) (negatives (pos ! i) nl (sl ! i))"
  using i by (simp add: row_triples_def z filter_row_emitted emitted_def o_def)

lemma to_index_fits:
  assumes "w = 32 \<or> w = 64" "- (2 ^ (w - 1)) \<le> x" "x < 2 ^ (w - 1)"
  shows "to_index w x = Inr x"
proof -
  from assms(1) have le: "(2::int) ^ (w - 1) \<le> 2 ^ 63" by (auto intro: power_increasing)
  have p: "(2::int) ^ w = 2 * 2 ^ (w - 1)" using assms(1) by (auto simp: power_Suc[symmetric] simp del: power_Suc)
  have "\<not> (x < - (2 ^ 63) \<or> 2 ^ 63 \<le> x)" using le assms(2,3) by linarith
  moreover have "(x + 2 ^ (w - 1)) mod 2 ^ w = x + 2 ^ (w - 1)"
    using assms(2,3) p by (intro mod_pos_pos_trivial) linarith+
  ultimately show ?thesis by (simp add: to_index_def)
qed

lemma index_array_fits:
  assumes "w = 32 \<or> w = 64" "\<forall>x\<in>set xs. - (2 ^ (w - 1)) \<le> x \<and> x < 2 ^ (w - 1)"
  shows "index_array w xs = Inr xs"
  using assms(2) by (induction xs) (simp_all add: to_index_fits[OF assms(1)])

lemma index_width_cases: "index_width shp = 32 \<or> index_width shp = 64"
  by (simp add: index_width_def)

lemma stored_index_fits:
  assumes "0 \<le> x" "x < int k" "k \<le> max m n" "int (max m n) < 2 ^ 63"
  shows "- (2 ^ (index_width (m, n) - 1)) \<le> x \<and> x < 2 ^ (index_width (m, n) - 1)"
proof (cases "int (max m n) < 2 ^ 31")
  case True
  then have w: "index_width (m, n) = 32"
    unfolding index_width_def by (simp only: fst_conv snd_conv if_True)
  have "x < 2 ^ 31" using True assms(2,3) by linarith
  then show ?thesis using assms(1) unfolding w by simp
next
  case False
  then have w: "index_width (m, n) = 64"
    unfolding index_width_def by (simp only: fst_conv snd_conv if_False)
  have "x < 2 ^ 63" using assms(2,3,4) by linarith
  then show ?thesis using assms(1) unfolding w by simp
qed

lemma int32_index_fits:
  assumes "- (2 ^ 31) \<le> x" "x < 2 ^ 31"
  shows "- (2 ^ (index_width shp - 1)) \<le> (x::int) \<and> x < 2 ^ (index_width shp - 1)"
  using assms index_width_cases[of shp] by auto

lemma csc_matrix_ok:
  assumes "\<forall>r\<in>set rows. 0 \<le> r \<and> r < int m" "\<forall>c\<in>set cols. 0 \<le> c \<and> c < int n"
    and "int (max m n) < 2 ^ 63"
  shows "csc_matrix dat rows cols (m, n)
         = Inr \<lparr>nrows = m, columns = map (csc_column (zip rows (zip cols dat))) [0..<n]\<rparr>"
proof -
  have r: "index_array (index_width (m, n)) rows = Inr rows"
    using assms(1) stored_index_fits[OF _ _ max.cobounded1 assms(3)]
    by (intro index_array_fits[OF index_width_cases]) blast
  have c: "index_array (index_width (m, n)) cols = Inr cols"
    using assms(2) stored_index_fits[OF _ _ max.cobounded2 assms(3)]
    by (intro index_array_fits[OF index_width_cases]) blast
  have "\<not> (\<exists>r \<in> set rows. int m \<le> r)" "\<not> (\<exists>c \<in> set cols. int n \<le> c)"
       "\<not> (\<exists>r \<in> set rows. r < 0)" "\<not> (\<exists>c \<in> set cols. c < 0)"
    using assms by force+
  then show ?thesis by (simp add: csc_matrix_def r c coo_to_csc_def)
qed

lemma filter_swap_row_col:
  assumes "\<forall>(r, c, v)\<in>set T. 0 \<le> r"
  shows "map snd (filter (\<lambda>(r', v). r' = i)
            (map (\<lambda>(r, c, v). (nat r, v)) (filter (\<lambda>(r, c, v). c = int j) T)))
         = map snd (filter (\<lambda>(c, v). c = int j) (map snd (filter (\<lambda>(r, cv). r = int i) T)))"
  using assms by (induction T) auto

lemma ent_keys:
  "i \<in> set (map fst (map (\<lambda>(r, c, v). (nat r, v)) (filter (\<lambda>(r, c, v). c = int j) T)))
   \<longleftrightarrow> (\<exists>r v. (r, int j, v) \<in> set T \<and> nat r = i)"
  by (induction T) auto

lemma row_keys:
  "int j \<in> fst ` set (map snd (filter (\<lambda>(r, cv). r = int i) T))
   \<longleftrightarrow> (\<exists>v. (int i, int j, v) \<in> set T)"
  by (induction T) auto

lemma csc_column_keys:
  assumes "\<forall>(r, c, v)\<in>set T. 0 \<le> r"
  shows "i \<in> set (map fst (csc_column T j))
         \<longleftrightarrow> int j \<in> fst ` set (map snd (filter (\<lambda>(r, cv). r = int i) T))"
proof -
  have "i \<in> set (map fst (csc_column T j)) \<longleftrightarrow> (\<exists>r v. (r, int j, v) \<in> set T \<and> nat r = i)"
    using ent_keys[of i j T] by (simp add: csc_column_def Let_def o_def)
  also have "\<dots> \<longleftrightarrow> (\<exists>v. (int i, int j, v) \<in> set T)"
  proof
    assume "\<exists>r v. (r, int j, v) \<in> set T \<and> nat r = i"
    then obtain r v where m: "(r, int j, v) \<in> set T" "nat r = i" by blast
    then have "0 \<le> r" using assms by auto
    then have "r = int i" using m(2) by simp
    then show "\<exists>v. (int i, int j, v) \<in> set T" using m(1) by blast
  next
    assume "\<exists>v. (int i, int j, v) \<in> set T"
    then obtain v where "(int i, int j, v) \<in> set T" by blast
    then show "\<exists>r v. (r, int j, v) \<in> set T \<and> nat r = i" by (intro exI[of _ "int i"] exI[of _ v]) simp
  qed
  also have "\<dots> \<longleftrightarrow> int j \<in> fst ` set (map snd (filter (\<lambda>(r, cv). r = int i) T))"
    by (simp only: row_keys)
  finally show ?thesis .
qed

lemma csc_column_distinct: "distinct (map fst (csc_column T j))"
  by (simp add: csc_column_def Let_def o_def)

lemma map_of_keyed: "map_of (map (\<lambda>r. (r, f r)) ks) i = (if i \<in> set ks then Some (f i) else None)"
  by (induction ks) auto

lemma csc_column_value:
  assumes "\<forall>(r, c, v)\<in>set T. 0 \<le> r"
  shows "(case map_of (csc_column T j) i of None \<Rightarrow> 0 | Some v \<Rightarrow> v)
         = sum_list (map snd (filter (\<lambda>(c, v). c = int j)
                                (map snd (filter (\<lambda>(r, cv). r = int i) T))))"
proof -
  let ?ent = "map (\<lambda>(r, c, v). (nat r, v)) (filter (\<lambda>(r, c, v). c = int j) T)"
  let ?s = "sum_list (map snd (filter (\<lambda>(r', v). r' = i) ?ent))"
  have m: "map_of (csc_column T j) i = (if i \<in> set (map fst ?ent) then Some ?s else None)"
    unfolding csc_column_def Let_def by (simp only: map_of_keyed set_sort set_remdups)
  have e: "?s = 0" if "i \<notin> set (map fst ?ent)"
  proof -
    have "\<forall>x\<in>set ?ent. fst x \<noteq> i" using that by (metis image_eqI set_map)
    then have "filter (\<lambda>(r', v). r' = i) ?ent = []"
      by (simp only: filter_empty_conv) (auto simp: case_prod_beta)
    then show ?thesis by simp
  qed
  have "(case map_of (csc_column T j) i of None \<Rightarrow> 0 | Some v \<Rightarrow> v) = ?s"
    using m e by auto
  then show ?thesis using filter_swap_row_col[OF assms, of i j] by simp
qed

lemma filter_eq_single: "distinct xs \<Longrightarrow> x \<in> set xs \<Longrightarrow> filter (\<lambda>y. y = x) xs = [x]"
  by (induction xs) (auto simp: filter_empty_conv)

lemma count_int_members:
  assumes "finite S" "\<forall>c\<in>S. 0 \<le> c \<and> c < int n"
  shows "length (filter (\<lambda>j. int j \<in> S) [0..<n]) = card S"
proof -
  have "length (filter (\<lambda>j. int j \<in> S) [0..<n]) = card ({j. int j \<in> S} \<inter> set [0..<n])"
    by (rule distinct_length_filter) simp
  also have "\<dots> = card (int ` ({j. int j \<in> S} \<inter> set [0..<n]))"
    by (simp add: card_image inj_on_def)
  also have "int ` ({j. int j \<in> S} \<inter> set [0..<n]) = S"
  proof
    show "int ` ({j. int j \<in> S} \<inter> set [0..<n]) \<subseteq> S" by auto
    show "S \<subseteq> int ` ({j. int j \<in> S} \<inter> set [0..<n])"
    proof
      fix c assume c: "c \<in> S"
      then have "0 \<le> c" "c < int n" using assms(2) by auto
      then have "nat c \<in> {j. int j \<in> S} \<inter> set [0..<n]" "int (nat c) = c" using c by auto
      then show "c \<in> int ` ({j. int j \<in> S} \<inter> set [0..<n])" by (metis image_eqI)
    qed
  qed
  finally show ?thesis .
qed

lemma emitted_members:
  assumes "(r, c, v) \<in> set (concat (map (emitted pos sl nl) [0..<n]))"
  shows "\<exists>i<n. r = int i \<and> ((\<exists>p\<in>set (pos ! i). c = int p \<and> v = 1)
                             \<or> (c \<in> set (negatives (pos ! i) nl (sl ! i)) \<and> v = - 1))"
  using assms by (auto simp: emitted_def)

lemma shortlist_triples_bounds:
  assumes wf: "nrows (Y (labels L)) = num_instances L"
    and z: "zip rows (zip cols dat)
              = concat (map (emitted (tolil_rows (Y (labels L))) shortlist_ind (num_labels L))
                            [0..<num_instances L])"
    and l: "length rows = length cols" "length cols = length dat"
    and rng: "\<forall>i<num_instances L. \<forall>c\<in>set (shortlist_ind ! i). 0 \<le> c \<and> c \<le> int (num_labels L)"
  shows "\<forall>r\<in>set rows. 0 \<le> r \<and> r < int (num_instances L)"
    and "\<forall>c\<in>set cols. 0 \<le> c \<and> c < int (num_labels L)"
proof -
  let ?pos = "tolil_rows (Y (labels L))"
  let ?T = "zip rows (zip cols dat)"
  have nl: "num_labels L = ncols (Y (labels L))" by (simp add: num_labels_def labels_num_labels_def)
  have mem: "0 \<le> r \<and> r < int (num_instances L) \<and> 0 \<le> c \<and> c < int (num_labels L)"
    if "(r, c, v) \<in> set ?T" for r c v
  proof -
    from that emitted_members[of r c v ?pos shortlist_ind "num_labels L" "num_instances L"] z
    obtain i where i: "i < num_instances L" "r = int i"
      and d: "(\<exists>p\<in>set (?pos ! i). c = int p \<and> v = 1)
              \<or> (c \<in> set (negatives (?pos ! i) (num_labels L) (shortlist_ind ! i)) \<and> v = - 1)"
      by auto
    have P: "\<forall>p\<in>set (?pos ! i). p < num_labels L"
      using tolil_rows_props(2)[of i "Y (labels L)"] i(1) wf nl by simp
    from d have "0 \<le> c \<and> c < int (num_labels L)"
    proof
      assume "\<exists>p\<in>set (?pos ! i). c = int p \<and> v = 1"
      then show ?thesis using P by auto
    next
      assume "c \<in> set (negatives (?pos ! i) (num_labels L) (shortlist_ind ! i)) \<and> v = - 1"
      then have "c \<in> set (shortlist_ind ! i)" "c \<noteq> int (num_labels L)"
        by (auto simp: negatives_set)
      then show ?thesis using rng i(1) by force
    qed
    then show ?thesis using i by simp
  qed
  have rows: "rows = map fst ?T" using l by simp
  have "map fst (map snd ?T) = cols" using l by simp
  then have cols: "cols = map (fst \<circ> snd) ?T" by simp
  show "\<forall>r\<in>set rows. 0 \<le> r \<and> r < int (num_instances L)"
  proof
    fix r assume "r \<in> set rows"
    then have "r \<in> fst ` set ?T" using rows by (metis set_map)
    then obtain c v where "(r, c, v) \<in> set ?T" by force
    then show "0 \<le> r \<and> r < int (num_instances L)" using mem by blast
  qed
  show "\<forall>c\<in>set cols. 0 \<le> c \<and> c < int (num_labels L)"
  proof
    fix c assume "c \<in> set cols"
    then have "c \<in> (fst \<circ> snd) ` set ?T" using cols by (metis set_map)
    then obtain r v where "(r, c, v) \<in> set ?T" by force
    then show "0 \<le> c \<and> c < int (num_labels L)" using mem by blast
  qed
qed

lemma with_label_matrix_simps:
  "labels (with_label_matrix L M) = \<lparr>Y = M\<rparr>"
  "features (with_label_matrix L M) = features L"
  by (simp_all add: with_label_matrix_def)

lemma update_data_shortlist_ok:
  assumes wf: "nrows (Y (labels L)) = num_instances L"
    and len: "num_instances L \<le> length shortlist_ind"
    and rng: "\<forall>i<num_instances L. \<forall>c\<in>set (shortlist_ind ! i). 0 \<le> c \<and> c \<le> int (num_labels L)"
    and dims: "int (max (num_instances L) (num_labels L)) < 2 ^ 63"
  shows "\<exists>rows cols dat.
           shortlist_triples L shortlist_ind = Inr (rows, cols, dat)
         \<and> (\<forall>(r, c, v)\<in>set (zip rows (zip cols dat)). 0 \<le> r)
         \<and> zip rows (zip cols dat)
             = concat (map (emitted (tolil_rows (Y (labels L))) shortlist_ind (num_labels L))
                           [0..<num_instances L])
         \<and> update_data_shortlist L shortlist_ind shortlist_sim
             = Inr (with_label_matrix L
                      \<lparr>nrows = num_instances L,
                       columns = map (csc_column (zip rows (zip cols dat))) [0..<num_labels L]\<rparr>)"
proof -
  from shortlist_triples_zip[OF wf len] obtain rows cols dat where
    t: "shortlist_triples L shortlist_ind = Inr (rows, cols, dat)"
    and l: "length rows = length cols" "length cols = length dat"
    and z: "zip rows (zip cols dat)
            = concat (map (emitted (tolil_rows (Y (labels L))) shortlist_ind (num_labels L))
                          [0..<num_instances L])"
    by blast
  note b = shortlist_triples_bounds[OF wf z l rng]
  have nonneg: "\<forall>(r, c, v)\<in>set (zip rows (zip cols dat)). 0 \<le> r"
    using b(1) by (auto dest: set_zip_leftD)
  have "update_data_shortlist L shortlist_ind shortlist_sim
        = Inr (with_label_matrix L
                 \<lparr>nrows = num_instances L,
                  columns = map (csc_column (zip rows (zip cols dat))) [0..<num_labels L]\<rparr>)"
    by (simp add: update_data_shortlist_def t csc_matrix_ok[OF b dims])
  with t nonneg z show ?thesis by blast
qed

lemma shortlist_rows_bound:
  assumes z: "zip rows (zip cols dat) = concat (map (emitted pos sl nl) [0..<n])"
    and l: "length rows = length cols" "length cols = length dat"
  shows "\<forall>r\<in>set rows. 0 \<le> r \<and> r < int n"
proof
  fix r assume "r \<in> set rows"
  moreover have "rows = map fst (zip rows (zip cols dat))" using l by simp
  ultimately have "r \<in> fst ` set (zip rows (zip cols dat))" by (metis set_map)
  then obtain c v where "(r, c, v) \<in> set (concat (map (emitted pos sl nl) [0..<n]))"
    unfolding z by force
  from emitted_members[OF this] show "0 \<le> r \<and> r < int n" by auto
qed

lemma shortlist_loader_facts:
  "nrows (Y (labels shortlist_loader)) = num_instances shortlist_loader"
  "num_instances shortlist_loader = 2"
  "num_labels shortlist_loader = 3"
  by (simp_all add: shortlist_loader_def num_instances_def num_labels_def
      labels_num_labels_def ncols_def)

lemma updated_loader_facts:
  "nrows (Y (labels updated_loader)) = num_instances updated_loader"
  "num_instances updated_loader = 2"
  "num_labels updated_loader = 3"
  by (simp_all add: updated_loader_def num_instances_def num_labels_def
      labels_num_labels_def ncols_def)

text \<open>
  What the loop emits, in terms of the columns stored in each row. For a loader whose
  label matrix has one row per instance and a shortlist with a candidate list for every
  instance, the loop assembles its triples without raising; with \<open>S_i\<close> the stored
  columns of row \<open>i\<close> (\<^verbatim>\<open>pos_labels[idx]\<close>), row \<open>i\<close> gets \<open>(p, 1)\<close> for the
  columns of \<open>S_i\<close>, then \<open>(c, -1)\<close> for the candidates outside \<open>S_i\<close> other than
  the sentinel, and no emitted column is the sentinel.
\<close>

lemma shortlist_rows_emitted:
  assumes wf: "nrows (Y (labels L)) = num_instances L"
    and len: "num_instances L \<le> length shortlist_ind"
  shows "\<exists>rows cols dat. shortlist_triples L shortlist_ind = Inr (rows, cols, dat)
     \<and> (\<forall>i<num_instances L.
           set (negatives (tolil_rows (Y (labels L)) ! i) (num_labels L) (shortlist_ind ! i))
             = set (shortlist_ind ! i)
                 - (int ` set (tolil_rows (Y (labels L)) ! i) \<union> {int (num_labels L)})
         \<and> row_triples (rows, cols, dat) i
             = map (\<lambda>p. (int p, 1)) (tolil_rows (Y (labels L)) ! i)
               @ map (\<lambda>c. (c, - 1))
                   (negatives (tolil_rows (Y (labels L)) ! i) (num_labels L) (shortlist_ind ! i))
         \<and> int (num_labels L) \<notin> fst ` set (row_triples (rows, cols, dat) i))
     \<and> int (num_labels L) \<notin> set cols"
proof -
  let ?pos = "tolil_rows (Y (labels L))"
  let ?nl = "num_labels L"
  let ?em = "emitted ?pos shortlist_ind ?nl"
  from shortlist_triples_zip[OF wf len] obtain rows cols dat where
    t: "shortlist_triples L shortlist_ind = Inr (rows, cols, dat)"
    and l: "length rows = length cols" "length cols = length dat"
    and z: "zip rows (zip cols dat) = concat (map ?em [0..<num_instances L])"
    by blast
  have nl: "?nl = ncols (Y (labels L))" by (simp add: num_labels_def labels_num_labels_def)
  have P: "\<forall>p\<in>set (?pos ! i). p < ?nl" if "i < num_instances L" for i
    using tolil_rows_props(2)[of i "Y (labels L)"] that wf nl by simp
  have rt: "row_triples (rows, cols, dat) i
            = map (\<lambda>p. (int p, 1)) (?pos ! i)
              @ map (\<lambda>c. (c, - 1)) (negatives (?pos ! i) ?nl (shortlist_ind ! i))"
    if "i < num_instances L" for i
    using that by (rule row_triples_emitted[OF z])
  have sent: "int ?nl \<notin> fst ` set (row_triples (rows, cols, dat) i)"
    if "i < num_instances L" for i
  proof -
    have "int ?nl \<notin> int ` set (?pos ! i)" using P[OF that] by auto
    moreover have "int ?nl \<notin> set (negatives (?pos ! i) ?nl (shortlist_ind ! i))"
      by (simp add: negatives_set)
    ultimately show ?thesis unfolding rt[OF that] by (auto simp: image_Un image_image)
  qed
  have "map fst (map snd (zip rows (zip cols dat))) = cols" using l by simp
  then have cols: "cols = map (fst \<circ> snd) (zip rows (zip cols dat))" by simp
  have "int ?nl \<notin> set cols"
  proof
    assume "int ?nl \<in> set cols"
    then have "int ?nl \<in> (fst \<circ> snd) ` set (zip rows (zip cols dat))"
      using cols by (metis set_map)
    then obtain r v where "(r, int ?nl, v) \<in> set (concat (map ?em [0..<num_instances L]))"
      unfolding z by force
    then obtain i where i: "i < num_instances L" and m: "(r, int ?nl, v) \<in> set (?em i)"
      by auto
    then have "int ?nl \<in> int ` set (?pos ! i)
               \<or> int ?nl \<in> set (negatives (?pos ! i) ?nl (shortlist_ind ! i))"
      by (auto simp: emitted_def)
    then show False using P[OF i] by (auto simp: negatives_set)
  qed
  with t rt sent show ?thesis by (auto simp: negatives_set)
qed

text \<open>
  What a successful update stores, in terms of the stored columns \<open>S_i\<close>: for in-range
  candidates and dimensions that fit the index type, the update returns, the new matrix
  has the old shape, holds \<open>1\<close> at every column of \<open>S_i\<close>, and with distinct
  candidates row \<open>i\<close> stores \<open>|S_i|\<close> entries plus one per kept candidate.
\<close>

lemma update_data_shortlist_stored:
  assumes wf: "nrows (Y (labels L)) = num_instances L"
    and len: "num_instances L \<le> length shortlist_ind"
    and rng: "\<forall>i<num_instances L. \<forall>c\<in>set (shortlist_ind ! i). 0 \<le> c \<and> c \<le> int (num_labels L)"
    and dims: "int (max (num_instances L) (num_labels L)) < 2 ^ 63"
  shows "\<exists>L'. update_data_shortlist L shortlist_ind shortlist_sim = Inr L'
     \<and> shape (Y (labels L')) = shape (Y (labels L))
     \<and> shape (Y (labels L')) = (num_instances L, num_labels L)
     \<and> (\<forall>i<num_instances L. \<forall>p\<in>set (tolil_rows (Y (labels L)) ! i).
            value_at (Y (labels L')) i p = 1)
     \<and> (\<forall>i<num_instances L. distinct (shortlist_ind ! i) \<longrightarrow>
            row_nnz (Y (labels L')) i
              = length (tolil_rows (Y (labels L)) ! i)
                + length (negatives (tolil_rows (Y (labels L)) ! i) (num_labels L)
                            (shortlist_ind ! i)))"
proof -
  let ?pos = "tolil_rows (Y (labels L))"
  let ?nl = "num_labels L"
  let ?n = "num_instances L"
  from update_data_shortlist_ok[OF wf len rng dims, of shortlist_sim] obtain rows cols dat where
    t: "shortlist_triples L shortlist_ind = Inr (rows, cols, dat)"
    and nonneg: "\<forall>(r, c, v)\<in>set (zip rows (zip cols dat)). 0 \<le> r"
    and z: "zip rows (zip cols dat) = concat (map (emitted ?pos shortlist_ind ?nl) [0..<?n])"
    and u: "update_data_shortlist L shortlist_ind shortlist_sim
             = Inr (with_label_matrix L
                      \<lparr>nrows = ?n,
                       columns = map (csc_column (zip rows (zip cols dat))) [0..<?nl]\<rparr>)"
    by blast
  let ?T = "zip rows (zip cols dat)"
  let ?M = "\<lparr>nrows = ?n, columns = map (csc_column ?T) [0..<?nl]\<rparr> :: int spmatrix"
  let ?L' = "with_label_matrix L ?M"
  have YL: "Y (labels ?L') = ?M" by (simp add: with_label_matrix_simps)
  have nl: "?nl = ncols (Y (labels L))" by (simp add: num_labels_def labels_num_labels_def)
  have sh: "shape (Y (labels ?L')) = (?n, ?nl)" unfolding YL by (simp add: shape_def ncols_def)
  have sh0: "shape (Y (labels L)) = (?n, ?nl)" using wf nl by (simp add: shape_def)
  have rt: "\<forall>i<?n. row_triples (rows, cols, dat) i
             = map (\<lambda>p. (int p, 1)) (?pos ! i)
               @ map (\<lambda>c. (c, - 1)) (negatives (?pos ! i) ?nl (shortlist_ind ! i))"
    using row_triples_emitted[OF z] by blast
  have rtT: "map snd (filter (\<lambda>(r, cv). r = int i) ?T) = row_triples (rows, cols, dat) i" for i
    by (simp add: row_triples_def)
  have P: "distinct (?pos ! i)" "\<forall>p\<in>set (?pos ! i). p < ?nl" if "i < ?n" for i
    using tolil_rows_props(1,2)[of i "Y (labels L)"] that wf nl by simp_all
  have val: "value_at ?M i p = 1" if i: "i < ?n" and p: "p \<in> set (?pos ! i)" for i p
  proof -
    let ?N = "negatives (?pos ! i) ?nl (shortlist_ind ! i)"
    have pl: "p < ?nl" using P(2)[OF i] p by simp
    have "value_at ?M i p
          = sum_list (map snd (filter (\<lambda>(c, v). c = int p) (row_triples (rows, cols, dat) i)))"
      using pl csc_column_value[OF nonneg, of p i] by (simp add: value_at_def rtT)
    also have "filter (\<lambda>(c, v). c = int p) (row_triples (rows, cols, dat) i)
               = map (\<lambda>p. (int p, 1)) (filter (\<lambda>y. y = p) (?pos ! i))
                 @ map (\<lambda>c. (c, - 1)) (filter (\<lambda>c. c = int p) ?N)"
      using rt i by (simp add: filter_map o_def)
    also have "filter (\<lambda>y. y = p) (?pos ! i) = [p]"
      by (rule filter_eq_single[OF P(1)[OF i] p])
    also have "filter (\<lambda>c. c = int p) ?N = []"
      using p by (auto simp: filter_empty_conv negatives_set)
    finally show ?thesis by simp
  qed
  have nnz: "row_nnz ?M i = length (?pos ! i) + length (negatives (?pos ! i) ?nl (shortlist_ind ! i))"
    if i: "i < ?n" and d: "distinct (shortlist_ind ! i)" for i
  proof -
    let ?N = "negatives (?pos ! i) ?nl (shortlist_ind ! i)"
    let ?S = "int ` set (?pos ! i) \<union> set ?N"
    have keys: "i \<in> set (col_indices ?M j) \<longleftrightarrow> int j \<in> ?S" if "j < ?nl" for j
    proof -
      have "i \<in> set (col_indices ?M j) \<longleftrightarrow> int j \<in> fst ` set (row_triples (rows, cols, dat) i)"
        using that csc_column_keys[OF nonneg, of i j] by (simp add: col_indices_def rtT)
      also have "fst ` set (row_triples (rows, cols, dat) i) = ?S"
        using rt i by (simp add: image_Un image_image)
      finally show ?thesis .
    qed
    have "filter (\<lambda>j. i \<in> set (col_indices ?M j)) [0..<?nl] = filter (\<lambda>j. int j \<in> ?S) [0..<?nl]"
      by (rule filter_cong) (use keys in auto)
    then have "row_nnz ?M i = length (filter (\<lambda>j. int j \<in> ?S) [0..<?nl])"
      by (simp add: row_nnz_def ncols_def)
    also have "\<dots> = card ?S"
    proof (rule count_int_members)
      show "finite ?S" by simp
      show "\<forall>c\<in>?S. 0 \<le> c \<and> c < int ?nl"
      proof
        fix c assume "c \<in> ?S"
        then consider "c \<in> int ` set (?pos ! i)" | "c \<in> set ?N" by blast
        then show "0 \<le> c \<and> c < int ?nl"
        proof cases
          case 1 then show ?thesis using P(2)[OF i] by auto
        next
          case 2
          then have "c \<in> set (shortlist_ind ! i)" "c \<noteq> int ?nl" by (auto simp: negatives_set)
          then show ?thesis using rng i by force
        qed
      qed
    qed
    also have "\<dots> = card (int ` set (?pos ! i)) + card (set ?N)"
      by (rule card_Un_disjoint) (auto simp: negatives_set)
    also have "card (int ` set (?pos ! i)) = length (?pos ! i)"
      using P(1)[OF i] by (simp add: card_image distinct_card)
    also have "card (set ?N) = length ?N"
    proof -
      have "distinct ?N" using d unfolding negatives_def by (rule distinct_filter)
      then show ?thesis by (rule distinct_card)
    qed
    finally show ?thesis .
  qed
  show ?thesis
  proof (intro exI[of _ ?L'] conjI)
    show "update_data_shortlist L shortlist_ind shortlist_sim = Inr ?L'" by (rule u)
    show "shape (Y (labels ?L')) = shape (Y (labels L))" using sh sh0 by simp
    show "shape (Y (labels ?L')) = (?n, ?nl)" by (rule sh)
    show "\<forall>i<?n. \<forall>p\<in>set (?pos ! i). value_at (Y (labels ?L')) i p = 1"
      unfolding YL using val by blast
    show "\<forall>i<?n. distinct (shortlist_ind ! i) \<longrightarrow>
            row_nnz (Y (labels ?L')) i
              = length (?pos ! i) + length (negatives (?pos ! i) ?nl (shortlist_ind ! i))"
      unfolding YL using nnz by blast
  qed
qed

text \<open>On a ground-truth matrix, where every stored value is positive, the stored columns
  of a row are its positive set, so the two lemmas above speak of the positives.\<close>

lemma tolil_rows_ground_truth:
  fixes M :: "('v::{zero, order}) spmatrix"
  assumes "\<forall>col\<in>set (columns M). \<forall>(r, v)\<in>set col. 0 < v" and "i < nrows M"
  shows "tolil_rows M ! i = positive_cols M i"
proof -
  have "(i \<in> set (col_indices M j)) = (0 < value_at M i j)" if "j < ncols M" for j
  proof -
    have "columns M ! j \<in> set (columns M)" using that by (simp add: ncols_def)
    then have "\<forall>(r, v)\<in>set (columns M ! j). 0 < v" using assms(1) by blast
    from value_at_positive[OF this] show ?thesis by simp
  qed
  then have "filter (\<lambda>j. i \<in> set (col_indices M j)) [0..<ncols M]
             = filter (\<lambda>j. 0 < value_at M i j) [0..<ncols M]"
    by (intro filter_cong) auto
  then show ?thesis using assms(2) by (simp add: tolil_rows_nth positive_cols_def)
qed

text \<open>
  Claim C4 does not hold of the code on a matrix that already stores negatives, which is
  what every update after the first receives. \<^verbatim>\<open>pos_labels\<close> is the list of stored
  columns, whatever their value. On \<open>updated_loader\<close>, the result of a first update,
  instance 0 has the positive set \<open>{0}\<close> and holds \<open>-1\<close> at label 1; with the
  candidates \<open>[1, 2]\<close> the claim's negatives are \<open>[1, 2]\<close>, but the loop emits label 1
  with value \<open>1\<close> and only label 2 with value \<open>-1\<close>.
\<close>

theorem shortlist_triples_second_round:
  "update_data_shortlist shortlist_loader [[0, 1, 3], [1, 2, 3]] () = Inr updated_loader
   \<and> positive_cols (Y (labels updated_loader)) 0 = [0]
   \<and> value_at (Y (labels updated_loader)) 0 1 = - 1
   \<and> negatives (positive_cols (Y (labels updated_loader)) 0) (num_labels updated_loader) [1, 2]
       = [1, 2]
   \<and> shortlist_triples updated_loader [[1, 2], [0]]
       = Inr ([0, 0, 0, 1, 1, 1], [0, 1, 2, 1, 2, 0], [1, 1, - 1, 1, 1, - 1])
   \<and> row_triples ([0, 0, 0, 1, 1, 1], [0, 1, 2, 1, 2, 0], [1, 1, - 1, 1, 1, - 1]) 0
       = [(0, 1), (1, 1), (2, - 1)]"
  by code_simp

text \<open>
  Claim C3 does not hold of the code on such a matrix either. On \<open>updated_loader\<close>
  with the distinct candidates \<open>[2]\<close> for instance 0, whose positive set is \<open>{0}\<close>,
  the claim's count is \<open>|P_0| + |N_0| = 1 + 1\<close>; the updated row stores three entries,
  the old negative at label 1 among them, now with value \<open>1\<close>.
\<close>

theorem update_data_shortlist_second_round:
  "update_data_shortlist shortlist_loader [[0, 1, 3], [1, 2, 3]] () = Inr updated_loader
   \<and> positive_cols (Y (labels updated_loader)) 0 = [0]
   \<and> negatives [0] (num_labels updated_loader) [2] = [2]
   \<and> update_data_shortlist updated_loader [[2], [0]] ()
       = Inr (with_label_matrix updated_loader
                \<lparr>nrows = 2,
                 columns = [[(0, 1), (1, - 1)], [(0, 1), (1, 1)], [(0, - 1), (1, 1)]]\<rparr>)
   \<and> row_nnz \<lparr>nrows = 2,
               columns = [[(0, 1), (1, - 1)], [(0, 1), (1, 1)], [(0, - 1), (1, 1 :: int)]]\<rparr> 0
       = 3
   \<and> value_at \<lparr>nrows = 2,
               columns = [[(0, 1), (1, - 1)], [(0, 1), (1, 1)], [(0, - 1), (1, 1 :: int)]]\<rparr> 0 1
       = 1"
  by code_simp

text \<open>
  Claim C5, as stated, fails: nothing validates the candidates before the matrix is
  built. On the shortlist loader (three labels) with candidates \<open>[0, 1, 5]\<close> for
  instance 0, the loop completes and emits column 5; the exception is the
  \<^verbatim>\<open>ValueError\<close> that the sparse-matrix constructor raises while it builds the matrix.
\<close>

theorem update_data_shortlist_late_failure:
  "shortlist_triples shortlist_loader [[0, 1, 5], [1]]
     = Inr ([0, 0, 0, 1, 1], [0, 1, 5, 2, 1], [1, - 1, - 1, 1, - 1])
   \<and> csc_matrix [1, - 1, - 1, 1, - 1] [0, 0, 0, 1, 1] [0, 1, 5, 2, 1] (2, 3)
     = Inl (ValueError ''column index exceeds matrix dimensions'')
   \<and> update_data_shortlist shortlist_loader [[0, 1, 5], [1]] ()
     = Inl (ValueError ''column index exceeds matrix dimensions'', shortlist_loader)"
  by code_simp

text \<open>
  Claim C5, amended. For a loader whose label matrix has one row per instance, with
  dimensions the index type can hold, and a shortlist with a candidate list for every
  instance whose candidates all fit a 32-bit index: if some candidate is negative or
  greater than the label count, the triples are still assembled without any error, the
  sparse-matrix constructor then raises a \<^verbatim>\<open>ValueError\<close> while it builds the matrix,
  and the loader, with its label matrix, is exactly as it was before the call.
\<close>

theorem update_data_shortlist_out_of_range:
  assumes wf: "nrows (Y (labels L)) = num_instances L"
    and len: "num_instances L \<le> length shortlist_ind"
    and dims: "int (max (num_instances L) (num_labels L)) < 2 ^ 63"
    and fit: "\<forall>i<num_instances L. \<forall>c\<in>set (shortlist_ind ! i). - (2 ^ 31) \<le> c \<and> c < 2 ^ 31"
    and bad: "\<exists>i<num_instances L. \<exists>c\<in>set (shortlist_ind ! i). c < 0 \<or> int (num_labels L) < c"
  shows "(\<exists>t. shortlist_triples L shortlist_ind = Inr t)
       \<and> (\<exists>msg. update_data_shortlist L shortlist_ind shortlist_sim = Inl (ValueError msg, L))"
proof -
  let ?pos = "tolil_rows (Y (labels L))"
  let ?nl = "num_labels L"
  let ?n = "num_instances L"
  let ?w = "index_width (?n, ?nl)"
  from shortlist_triples_zip[OF wf len] obtain rows cols dat where
    t: "shortlist_triples L shortlist_ind = Inr (rows, cols, dat)"
    and l: "length rows = length cols" "length cols = length dat"
    and z: "zip rows (zip cols dat) = concat (map (emitted ?pos shortlist_ind ?nl) [0..<?n])"
    by blast
  let ?T = "zip rows (zip cols dat)"
  have nl: "?nl = ncols (Y (labels L))" by (simp add: num_labels_def labels_num_labels_def)
  have P: "\<forall>p\<in>set (?pos ! i). p < ?nl" if "i < ?n" for i
    using tolil_rows_props(2)[of i "Y (labels L)"] that wf nl by simp
  from bad obtain i c where i: "i < ?n" and c: "c \<in> set (shortlist_ind ! i)"
    and o: "c < 0 \<or> int ?nl < c" by blast
  have "c \<notin> int ` set (?pos ! i)" using P[OF i] o by auto
  then have "c \<in> set (negatives (?pos ! i) ?nl (shortlist_ind ! i))"
    using c o by (auto simp: negatives_set)
  then have "(int i, c, - 1) \<in> set (emitted ?pos shortlist_ind ?nl i)"
    by (auto simp: emitted_def)
  then have m: "(int i, c, - 1) \<in> set ?T" unfolding z using i by auto
  then have "(c, - 1) \<in> set (zip cols dat)" by (rule set_zip_rightD)
  then have cm: "c \<in> set cols" and dn: "dat \<noteq> []"
    by (auto dest: set_zip_leftD set_zip_rightD)
  note rb = shortlist_rows_bound[OF z l]
  have rows: "\<not> (\<exists>r\<in>set rows. int ?n \<le> r)" "\<not> (\<exists>r\<in>set rows. r < 0)"
    using rb by force+
  have ra: "index_array ?w rows = Inr rows"
    using rb stored_index_fits[OF _ _ max.cobounded1 dims]
    by (intro index_array_fits[OF index_width_cases]) blast
  have "map fst (map snd ?T) = cols" using l by simp
  then have cols: "cols = map (fst \<circ> snd) ?T" by simp
  have cfit: "- (2 ^ (?w - 1)) \<le> x \<and> x < 2 ^ (?w - 1)" if "x \<in> set cols" for x
  proof -
    from that have "x \<in> (fst \<circ> snd) ` set ?T" using cols by (metis set_map)
    then obtain r v where "(r, x, v) \<in> set (concat (map (emitted ?pos shortlist_ind ?nl) [0..<?n]))"
      unfolding z by force
    from emitted_members[OF this] obtain k where k: "k < ?n"
      and d: "(\<exists>p\<in>set (?pos ! k). x = int p \<and> v = 1)
              \<or> (x \<in> set (negatives (?pos ! k) ?nl (shortlist_ind ! k)) \<and> v = - 1)"
      by auto
    from d show ?thesis
    proof
      assume "\<exists>p\<in>set (?pos ! k). x = int p \<and> v = 1"
      then have "0 \<le> x" "x < int ?nl" using P[OF k] by auto
      then show ?thesis by (rule stored_index_fits[OF _ _ max.cobounded2 dims])
    next
      assume "x \<in> set (negatives (?pos ! k) ?nl (shortlist_ind ! k)) \<and> v = - 1"
      then have "x \<in> set (shortlist_ind ! k)" by (simp add: negatives_set)
      then have "- (2 ^ 31) \<le> x" "x < 2 ^ 31" using fit k by auto
      then show ?thesis by (rule int32_index_fits)
    qed
  qed
  have ca: "index_array ?w cols = Inr cols"
    using cfit by (intro index_array_fits[OF index_width_cases]) blast
  have build: "csc_matrix dat rows cols (?n, ?nl) = coo_to_csc dat rows cols (?n, ?nl)"
    by (simp add: csc_matrix_def ra ca)
  have "\<exists>msg. coo_to_csc dat rows cols (?n, ?nl) = Inl (ValueError msg)"
  proof (cases "\<exists>c\<in>set cols. int ?nl \<le> c")
    case True
    then show ?thesis using dn rows by (simp add: coo_to_csc_def)
  next
    case False
    then have "c < 0" using cm o by force
    then have "\<exists>c\<in>set cols. c < 0" using cm by blast
    then show ?thesis using False dn rows by (simp add: coo_to_csc_def)
  qed
  then obtain msg where "csc_matrix dat rows cols (?n, ?nl) = Inl (ValueError msg)"
    using build by auto
  then have "update_data_shortlist L shortlist_ind shortlist_sim = Inl (ValueError msg, L)"
    by (simp add: update_data_shortlist_def t)
  with t show ?thesis by blast
qed

theorem update_data_shortlist_out_of_range_witness:
  "nrows (Y (labels shortlist_loader)) = num_instances shortlist_loader
   \<and> num_instances shortlist_loader \<le> length [[0, 1, 5], [1 :: int]]
   \<and> (\<exists>i<num_instances shortlist_loader. \<exists>c\<in>set ([[0, 1, 5], [1]] ! i).
          c < 0 \<or> int (num_labels shortlist_loader) < c)
   \<and> (\<exists>msg. update_data_shortlist shortlist_loader [[0, 1, 5], [1]] ()
              = Inl (ValueError msg, shortlist_loader))"
proof -
  have h1: "nrows (Y (labels shortlist_loader)) = num_instances shortlist_loader"
    by (rule shortlist_loader_facts)
  have h2: "num_instances shortlist_loader \<le> length [[0, 1, 5], [1 :: int]]"
    by (simp add: shortlist_loader_facts)
  have d: "int (max (num_instances shortlist_loader) (num_labels shortlist_loader)) < 2 ^ 63"
    by (simp add: shortlist_loader_facts)
  have f: "\<forall>i<num_instances shortlist_loader. \<forall>c\<in>set ([[0, 1, 5], [1 :: int]] ! i).
             - (2 ^ 31) \<le> c \<and> c < 2 ^ 31"
    by (auto simp: shortlist_loader_facts less_2_cases_iff)
  have h3: "\<exists>i<num_instances shortlist_loader. \<exists>c\<in>set ([[0, 1, 5], [1]] ! i).
          c < 0 \<or> int (num_labels shortlist_loader) < c"
    by (intro exI[of _ 0]) (simp add: shortlist_loader_facts)
  from update_data_shortlist_out_of_range[OF h1 h2 d f h3, of "()"] have
    "\<exists>msg. update_data_shortlist shortlist_loader [[0, 1, 5], [1]] ()
              = Inl (ValueError msg, shortlist_loader)"
    by blast
  with h1 h2 h3 show ?thesis by blast
qed

text \<open>Beyond the index type the constructor does not reject: a candidate of \<open>2 ^ 40\<close>
  is stored as column 0, so the update returns and the old positive of instance 0 is
  summed with \<open>-1\<close>; a candidate of \<open>2 ^ 63\<close> raises \<^verbatim>\<open>OverflowError\<close>.\<close>

lemma update_data_shortlist_wide_candidate:
  "update_data_shortlist shortlist_loader [[0, 1, 2 ^ 40], [1]] ()
     = Inr (with_label_matrix shortlist_loader
              \<lparr>nrows = 2, columns = [[(0, 0)], [(0, - 1), (1, - 1)], [(1, 1)]]\<rparr>)
   \<and> update_data_shortlist shortlist_loader [[0, 1, 2 ^ 63], [1]] ()
     = Inl (OverflowError, shortlist_loader)"
  by code_simp

subsection \<open>Checkpoint\<close>

lemma load_fails: "fs fname = Some state \<Longrightarrow> load L fs fname = Inl (AttributeError ''num_labels'')"
  by (simp add: load_def check_setattr_def readonly_properties_def)

text \<open>
  Claim C9 does not hold of the code: \<^verbatim>\<open>load\<close> begins with
  \<^verbatim>\<open>self.num_labels = state['num_labels']\<close>, and \<^verbatim>\<open>num_labels\<close> is a property
  without a setter. Loading the checkpoint that \<^verbatim>\<open>save\<close> has just written raises
  \<^verbatim>\<open>AttributeError\<close> at that assignment, before \<^verbatim>\<open>num_labels_\<close> or
  \<^verbatim>\<open>valid_labels\<close> are restored; by \<open>load_fails\<close> this is so for every loader and
  every checkpoint file that exists.
\<close>

theorem load_after_save_raises:
  "load scenario_loader (save scenario_loader Map.empty ''ckpt.pkl'') ''ckpt.pkl''
   = Inl (AttributeError ''num_labels'')"
  by (rule load_fails[of _ _ "\<lparr>ck_num_labels = 3, ck_num_labels_orig = 3, ck_valid_labels = Some [0, 1, 2]\<rparr>"])
     (simp add: save_def scenario_loader_def scenario_labels_def num_labels_def
        labels_num_labels_def ncols_def)

subsection \<open>Construction\<close>

lemma gen_batches_unknown_order:
  "batch_order L \<noteq> ''labels'' \<Longrightarrow> batch_order L \<noteq> ''instances'' \<Longrightarrow>
   gen_batches L = Inl (NotImplementedError ''Unknown order for batching!'')"
  by (simp add: gen_batches_def)

lemma load_features_unknown_type:
  "c_feature_type cfg \<noteq> ''sparse'' \<Longrightarrow> c_feature_type cfg \<noteq> ''dense'' \<Longrightarrow>
   load_features E cfg d f = Inl (NotImplementedError ''Unknown feature type!'')"
  by (simp add: load_features_def)

lemma construct_cases:
  "construct E cfg =
     (case load_data E cfg (path_join E (c_data_dir cfg) (c_dataset cfg))
             (c_feat_fname cfg) (c_label_fname cfg) of
        Inl e \<Rightarrow> Inl e
      | Inr (fts, lb) \<Rightarrow>
          gen_batches
            \<lparr>feature_type = c_feature_type cfg, norm = c_norm cfg, features = fts,
             labels = fst (snd (restrict_labels cfg lb)), batch_size = c_batch_size cfg,
             start_index = c_start_index cfg, end_index = fst (restrict_labels cfg lb),
             batch_order = c_batch_order cfg, mode = c_mode cfg,
             valid_labels = snd (snd (restrict_labels cfg lb)), num_valid_labels = None,
             batches = None, num_labels_orig = snd (shape (Y lb))\<rparr>)"
  by (simp add: construct_def Let_def split: sum.splits prod.splits)

text \<open>
  Claim C6. Constructing a loader with a feature type other than \<^verbatim>\<open>sparse\<close> or
  \<^verbatim>\<open>dense\<close>, or a batch order other than \<^verbatim>\<open>labels\<close> or \<^verbatim>\<open>instances\<close>, fails
  during construction. The configuration error is the \<^verbatim>\<open>NotImplementedError\<close> of
  \<^verbatim>\<open>load_features\<close>, raised once the labels have been read, respectively that of
  \<^verbatim>\<open>_gen_batches\<close>, raised once the data has been loaded; if a reader fails first,
  construction fails with the reader's error.
\<close>

theorem construct_unknown_option:
  assumes "c_feature_type cfg \<notin> {''sparse'', ''dense''}
           \<or> c_batch_order cfg \<notin> {''labels'', ''instances''}"
  shows "(\<exists>e. construct E cfg = Inl e)
     \<and> (c_feature_type cfg \<notin> {''sparse'', ''dense''} \<longrightarrow>
          (\<forall>lb. load_labels E cfg (path_join E (c_data_dir cfg) (c_dataset cfg))
                   (c_label_fname cfg) = Inr lb \<longrightarrow>
                construct E cfg = Inl (NotImplementedError ''Unknown feature type!'')))
     \<and> (c_batch_order cfg \<notin> {''labels'', ''instances''} \<longrightarrow>
          (\<forall>fts lb. load_data E cfg (path_join E (c_data_dir cfg) (c_dataset cfg))
                       (c_feat_fname cfg) (c_label_fname cfg) = Inr (fts, lb) \<longrightarrow>
                construct E cfg = Inl (NotImplementedError ''Unknown order for batching!'')))"
proof -
  let ?dir = "path_join E (c_data_dir cfg) (c_dataset cfg)"
  have ft: "construct E cfg = Inl (NotImplementedError ''Unknown feature type!'')"
    if "c_feature_type cfg \<notin> {''sparse'', ''dense''}"
      and "load_labels E cfg ?dir (c_label_fname cfg) = Inr lb" for lb
    using that by (simp add: construct_def load_data_def load_features_unknown_type)
  have ftE: "\<exists>e. construct E cfg = Inl e" if "c_feature_type cfg \<notin> {''sparse'', ''dense''}"
    using that
    by (cases "load_labels E cfg ?dir (c_label_fname cfg)")
       (simp_all add: construct_def load_data_def load_features_unknown_type)
  have bo: "construct E cfg = Inl (NotImplementedError ''Unknown order for batching!'')"
    if "c_batch_order cfg \<notin> {''labels'', ''instances''}"
      and "load_data E cfg ?dir (c_feat_fname cfg) (c_label_fname cfg) = Inr (fts, lb)" for fts lb
    using that by (simp add: construct_cases gen_batches_unknown_order)
  have boE: "\<exists>e. construct E cfg = Inl e" if "c_batch_order cfg \<notin> {''labels'', ''instances''}"
  proof (cases "load_data E cfg ?dir (c_feat_fname cfg) (c_label_fname cfg)")
    case (Inl e) then show ?thesis by (simp add: construct_cases)
  next
    case (Inr p)
    then show ?thesis using bo[OF that, of "fst p" "snd p"] by simp
  qed
  from assms ftE boE have "\<exists>e. construct E cfg = Inl e" by blast
  with ft bo show ?thesis by blast
qed


lemma demo_load_labels:
  "load_labels demo_env cfg d f = Inr five_labels"
  by (simp add: load_labels_def demo_env_def)

lemma demo_load_data:
  "c_feature_type cfg = ''sparse'' \<Longrightarrow> load_data demo_env cfg d f l = Inr (scenario_features, five_labels)"
  by (cases "c_norm cfg") (simp_all add: load_data_def load_labels_def load_features_def demo_env_def)

theorem construct_unknown_option_witness:
  "c_feature_type (demo_config\<lparr>c_feature_type := ''libsvm''\<rparr>) = ''libsvm''
   \<and> construct demo_env (demo_config\<lparr>c_feature_type := ''libsvm''\<rparr>)
       = Inl (NotImplementedError ''Unknown feature type!'')"
proof -
  let ?cfg = "demo_config\<lparr>c_feature_type := ''libsvm''\<rparr>"
  have h: "c_feature_type ?cfg \<notin> {''sparse'', ''dense''}
           \<or> c_batch_order ?cfg \<notin> {''labels'', ''instances''}"
    by simp
  have ft: "c_feature_type ?cfg \<notin> {''sparse'', ''dense''}" by simp
  from construct_unknown_option[OF h, of demo_env] ft demo_load_labels[of ?cfg]
  have "construct demo_env ?cfg = Inl (NotImplementedError ''Unknown feature type!'')"
    by blast
  then show ?thesis by simp
qed

lemma restrict_labels_predict:
  "c_mode cfg \<noteq> ''train'' \<Longrightarrow> restrict_labels cfg lb = (c_end_index cfg, lb, None)"
  by (simp add: restrict_labels_def)

lemma restrict_labels_default:
  "c_mode cfg = ''train'' \<Longrightarrow> c_start_index cfg = 0 \<Longrightarrow> c_end_index cfg = - 1 \<Longrightarrow>
   restrict_labels cfg lb = (- 1, snd (remove_invalid lb), Some (fst (remove_invalid lb)))"
  by (simp add: restrict_labels_def split: prod.splits)

lemma restrict_labels_range:
  "c_mode cfg = ''train'' \<Longrightarrow> c_start_index cfg \<noteq> 0 \<or> c_end_index cfg \<noteq> - 1 \<Longrightarrow>
   e = (if c_end_index cfg = - 1 then int (labels_num_labels lb) else c_end_index cfg) \<Longrightarrow>
   restrict_labels cfg lb
     = (e, snd (remove_invalid (getitem_cols lb (c_start_index cfg) e)),
        Some (fst (remove_invalid (getitem_cols lb (c_start_index cfg) e))))"
  by (auto simp: restrict_labels_def Let_def split: prod.splits)

lemma gen_batches_fields:
  "gen_batches L = Inr L' \<Longrightarrow>
   labels L' = labels L \<and> valid_labels L' = valid_labels L \<and> end_index L' = end_index L
   \<and> features L' = features L \<and> num_labels_orig L' = num_labels_orig L"
  by (auto simp: gen_batches_def Let_def split: if_splits sum.splits)

text \<open>
  Claim C10. With \<open>lb\<close> the labels as loaded: when the mode is not \<^verbatim>\<open>train\<close> (so
  for \<^verbatim>\<open>predict\<close>) the start and end index are not used and no label is removed,
  \<^verbatim>\<open>_gen_batches\<close> runs on the loader with \<open>lb\<close> itself, so a loader that is
  returned has the label matrix \<open>lb\<close> with its full shape; in \<^verbatim>\<open>train\<close> mode with
  the defaults \<open>start_index = 0\<close> and \<open>end_index = -1\<close> no column is sliced and the
  invalid labels of \<open>lb\<close> are removed; in \<^verbatim>\<open>train\<close> mode otherwise the columns are
  sliced first and the invalid labels of the slice are removed.
\<close>

theorem construct_label_steps_by_mode:
  assumes ld: "load_data E cfg (path_join E (c_data_dir cfg) (c_dataset cfg))
               (c_feat_fname cfg) (c_label_fname cfg) = Inr (fts, lb)"
  shows "(c_mode cfg \<noteq> ''train'' \<longrightarrow>
            construct E cfg
              = gen_batches (assembled cfg fts lb (c_end_index cfg) None (ncols (Y lb))))
       \<and> (c_mode cfg = ''train'' \<and> c_start_index cfg = 0 \<and> c_end_index cfg = - 1 \<longrightarrow>
            construct E cfg
              = gen_batches (assembled cfg fts (snd (remove_invalid lb)) (- 1)
                               (Some (fst (remove_invalid lb))) (ncols (Y lb))))
       \<and> (c_mode cfg = ''train'' \<and> (c_start_index cfg \<noteq> 0 \<or> c_end_index cfg \<noteq> - 1) \<longrightarrow>
            construct E cfg
              = gen_batches
                  (assembled cfg fts
                     (snd (remove_invalid (getitem_cols lb (c_start_index cfg)
                        (if c_end_index cfg = - 1 then int (labels_num_labels lb)
                         else c_end_index cfg))))
                     (if c_end_index cfg = - 1 then int (labels_num_labels lb)
                      else c_end_index cfg)
                     (Some (fst (remove_invalid (getitem_cols lb (c_start_index cfg)
                        (if c_end_index cfg = - 1 then int (labels_num_labels lb)
                         else c_end_index cfg)))))
                     (ncols (Y lb))))
       \<and> (\<forall>L. construct E cfg = Inr L \<longrightarrow>
            (c_mode cfg \<noteq> ''train'' \<longrightarrow>
               labels L = lb \<and> shape (Y (labels L)) = shape (Y lb)
               \<and> valid_labels L = None \<and> end_index L = c_end_index cfg)
          \<and> (c_mode cfg = ''train'' \<and> c_start_index cfg = 0 \<and> c_end_index cfg = - 1 \<longrightarrow>
               labels L = snd (remove_invalid lb)
               \<and> valid_labels L = Some (fst (remove_invalid lb))))"
proof -
  have c: "construct E cfg
           = gen_batches (assembled cfg fts (fst (snd (restrict_labels cfg lb)))
                            (fst (restrict_labels cfg lb)) (snd (snd (restrict_labels cfg lb)))
                            (ncols (Y lb)))"
    using ld by (simp add: construct_cases assembled_def shape_def)
  have p: "construct E cfg = gen_batches (assembled cfg fts lb (c_end_index cfg) None (ncols (Y lb)))"
    if "c_mode cfg \<noteq> ''train''"
    using c by (simp add: restrict_labels_predict[OF that])
  have d: "construct E cfg
           = gen_batches (assembled cfg fts (snd (remove_invalid lb)) (- 1)
                            (Some (fst (remove_invalid lb))) (ncols (Y lb)))"
    if "c_mode cfg = ''train''" "c_start_index cfg = 0" "c_end_index cfg = - 1"
    using c by (simp add: restrict_labels_default[OF that])
  have r: "construct E cfg
           = gen_batches
               (assembled cfg fts
                  (snd (remove_invalid (getitem_cols lb (c_start_index cfg)
                     (if c_end_index cfg = - 1 then int (labels_num_labels lb)
                      else c_end_index cfg))))
                  (if c_end_index cfg = - 1 then int (labels_num_labels lb)
                   else c_end_index cfg)
                  (Some (fst (remove_invalid (getitem_cols lb (c_start_index cfg)
                     (if c_end_index cfg = - 1 then int (labels_num_labels lb)
                      else c_end_index cfg)))))
                  (ncols (Y lb)))"
    if "c_mode cfg = ''train''" "c_start_index cfg \<noteq> 0 \<or> c_end_index cfg \<noteq> - 1"
    using c by (simp only: restrict_labels_range[OF that refl] fst_conv snd_conv)
  have f: "(c_mode cfg \<noteq> ''train'' \<longrightarrow>
               labels L = lb \<and> shape (Y (labels L)) = shape (Y lb)
               \<and> valid_labels L = None \<and> end_index L = c_end_index cfg)
          \<and> (c_mode cfg = ''train'' \<and> c_start_index cfg = 0 \<and> c_end_index cfg = - 1 \<longrightarrow>
               labels L = snd (remove_invalid lb)
               \<and> valid_labels L = Some (fst (remove_invalid lb)))"
    if "construct E cfg = Inr L" for L
  proof (intro conjI impI)
    assume m: "c_mode cfg \<noteq> ''train''"
    from gen_batches_fields[of "assembled cfg fts lb (c_end_index cfg) None (ncols (Y lb))" L]
      that p[OF m]
    show "labels L = lb" "shape (Y (labels L)) = shape (Y lb)"
      "valid_labels L = None" "end_index L = c_end_index cfg"
      by (simp_all add: assembled_def)
  next
    assume m: "c_mode cfg = ''train'' \<and> c_start_index cfg = 0 \<and> c_end_index cfg = - 1"
    from gen_batches_fields[of "assembled cfg fts (snd (remove_invalid lb)) (- 1)
                            (Some (fst (remove_invalid lb))) (ncols (Y lb))" L]
      that d m
    show "labels L = snd (remove_invalid lb)" "valid_labels L = Some (fst (remove_invalid lb))"
      by (simp_all add: assembled_def)
  qed
  from p d r f show ?thesis by blast
qed

theorem construct_label_steps_by_mode_witness:
  "construct demo_env demo_config
     = Inr \<lparr>feature_type = ''sparse'', norm = Some ''l2'', features = scenario_features,
            labels = \<lparr>Y = \<lparr>nrows = 4,
                           columns = [[(0, 1)], [(1, 1)], [(2, 1), (3, 1)], [(0, 1)]]\<rparr>\<rparr>,
            batch_size = 2, start_index = 0, end_index = - 1, batch_order = ''labels'',
            mode = ''train'', valid_labels = Some [0, 1, 3, 4], num_valid_labels = None,
            batches = Some [[0, 1], [2, 3]], num_labels_orig = 5\<rparr>
   \<and> construct demo_env
       (demo_config\<lparr>c_mode := ''predict'', c_start_index := 2, c_end_index := 1\<rparr>)
     = Inr \<lparr>feature_type = ''sparse'', norm = Some ''l2'', features = scenario_features,
            labels = five_labels, batch_size = 2, start_index = 2, end_index = 1,
            batch_order = ''labels'', mode = ''predict'', valid_labels = None,
            num_valid_labels = None, batches = Some [[0, 1], [2, 3], [4]],
            num_labels_orig = 5\<rparr>"
proof -
  let ?t = "demo_config"
  let ?p = "demo_config\<lparr>c_mode := ''predict'', c_start_index := 2, c_end_index := 1\<rparr>"
  have lt: "load_data demo_env ?t (path_join demo_env (c_data_dir ?t) (c_dataset ?t))
          (c_feat_fname ?t) (c_label_fname ?t) = Inr (scenario_features, five_labels)"
    by (rule demo_load_data) (simp add: demo_config_def)
  have lp: "load_data demo_env ?p (path_join demo_env (c_data_dir ?p) (c_dataset ?p))
          (c_feat_fname ?p) (c_label_fname ?p) = Inr (scenario_features, five_labels)"
    by (rule demo_load_data) (simp add: demo_config_def)
  have mt: "c_mode ?t = ''train'' \<and> c_start_index ?t = 0 \<and> c_end_index ?t = - 1"
    by (simp add: demo_config_def)
  have mp: "c_mode ?p \<noteq> ''train''" by (simp add: demo_config_def)
  from construct_label_steps_by_mode[OF lt] mt
  have "construct demo_env ?t
        = gen_batches (assembled ?t scenario_features (snd (remove_invalid five_labels)) (- 1)
                         (Some (fst (remove_invalid five_labels))) (ncols (Y five_labels)))"
    by blast
  also have "\<dots> = Inr \<lparr>feature_type = ''sparse'', norm = Some ''l2'', features = scenario_features,
            labels = \<lparr>Y = \<lparr>nrows = 4,
                           columns = [[(0, 1)], [(1, 1)], [(2, 1), (3, 1)], [(0, 1)]]\<rparr>\<rparr>,
            batch_size = 2, start_index = 0, end_index = - 1, batch_order = ''labels'',
            mode = ''train'', valid_labels = Some [0, 1, 3, 4], num_valid_labels = None,
            batches = Some [[0, 1], [2, 3]], num_labels_orig = 5\<rparr>"
    by code_simp
  finally have t: "construct demo_env ?t
        = Inr \<lparr>feature_type = ''sparse'', norm = Some ''l2'', features = scenario_features,
            labels = \<lparr>Y = \<lparr>nrows = 4,
                           columns = [[(0, 1)], [(1, 1)], [(2, 1), (3, 1)], [(0, 1)]]\<rparr>\<rparr>,
            batch_size = 2, start_index = 0, end_index = - 1, batch_order = ''labels'',
            mode = ''train'', valid_labels = Some [0, 1, 3, 4], num_valid_labels = None,
            batches = Some [[0, 1], [2, 3]], num_labels_orig = 5\<rparr>" .
  from construct_label_steps_by_mode[OF lp] mp
  have "construct demo_env ?p
        = gen_batches (assembled ?p scenario_features five_labels (c_end_index ?p) None
                         (ncols (Y five_labels)))"
    by blast
  also have "\<dots> = Inr \<lparr>feature_type = ''sparse'', norm = Some ''l2'', features = scenario_features,
            labels = five_labels, batch_size = 2, start_index = 2, end_index = 1,
            batch_order = ''labels'', mode = ''predict'', valid_labels = None,
            num_valid_labels = None, batches = Some [[0, 1], [2, 3], [4]],
            num_labels_orig = 5\<rparr>"
    by code_simp
  finally show ?thesis using t by simp
qed

subsection \<open>Label range\<close>

lemma take_drop_nth:
  assumes "p \<le> q" "q \<le> length xs"
  shows "take (q - p) (drop p xs) = map (\<lambda>j. xs ! j) [p..<q]"
proof (rule nth_equalityI)
  show "length (take (q - p) (drop p xs)) = length (map (\<lambda>j. xs ! j) [p..<q])"
    using assms by simp
next
  fix i assume "i < length (take (q - p) (drop p xs))"
  then have "i < q - p" by simp
  then show "take (q - p) (drop p xs) ! i = map (\<lambda>j. xs ! j) [p..<q] ! i"
    using assms by simp
qed

lemma py_slice_nonneg:
  assumes "0 \<le> a" "0 \<le> b"
  shows "py_slice xs a b = map (\<lambda>j. xs ! j) [nat a..<min (nat b) (length xs)]"
proof -
  let ?a = "min (nat a) (length xs)" and ?b = "min (nat b) (length xs)"
  have s: "py_slice xs a b = take (?b - ?a) (drop ?a xs)"
    using assms by (simp add: py_slice_def slice_bound_def Let_def)
  show ?thesis
  proof (cases "nat a \<le> ?b")
    case True
    then have "?a = nat a" by simp
    then show ?thesis using s take_drop_nth[OF True, of xs] by simp
  next
    case False
    then have lt: "?b < nat a" by (simp only: not_le)
    then have "?b \<le> ?a" by (auto simp: min_def split: if_splits)
    then have "?b - ?a = 0" by (simp only: diff_is_0_eq)
    moreover have "[nat a..<?b] = []" using lt by simp
    ultimately show ?thesis using s by simp
  qed
qed

lemma py_slice_empty: "0 \<le> a \<Longrightarrow> 0 \<le> b \<Longrightarrow> b \<le> a \<Longrightarrow> py_slice xs a b = []"
  by (simp add: py_slice_nonneg)

lemma remove_invalid_empty:
  "columns (Y lb) = [] \<Longrightarrow> columns (Y (snd (remove_invalid lb))) = [] \<and> fst (remove_invalid lb) = []"
  by (simp add: remove_invalid_def ncols_def Let_def)


text \<open>
  Claim C7, as stated, fails: \<^verbatim>\<open>construct\<close> never compares the two bounds. With
  \<open>start_index = 2\<close> and \<open>end_index = 1\<close> in instance-major order, construction
  returns a loader whose label matrix has no column.
\<close>

theorem construct_without_range_check:
  "construct demo_env
     (demo_config\<lparr>c_batch_order := ''instances'', c_start_index := 2, c_end_index := 1\<rparr>)
   = Inr \<lparr>feature_type = ''sparse'', norm = Some ''l2'', features = scenario_features,
          labels = \<lparr>Y = \<lparr>nrows = 4, columns = []\<rparr>\<rparr>, batch_size = 2,
          start_index = 2, end_index = 1, batch_order = ''instances'', mode = ''train'',
          valid_labels = Some [], num_valid_labels = None,
          batches = Some [[0, 1], [2, 3]], num_labels_orig = 5\<rparr>"
  by code_simp

text \<open>
  Claim C7, amended. In \<^verbatim>\<open>train\<close> mode with a label range requested
  (\<open>start_index \<noteq> 0\<close> or \<open>end_index \<noteq> -1\<close>), \<open>end_index = -1\<close> resolves to the
  label count and, for non-negative bounds, the columns are sliced to
  \<open>[start_index, end_index)\<close>, clipped to the label count, before the invalid labels
  are removed. The bounds are not checked: when \<open>end_index \<le> start_index\<close> the slice
  has no column; in instance-major order, with a positive instance count and batch size,
  construction then returns a loader with zero labels, and in label-major order the
  only failure is numpy's \<^verbatim>\<open>ValueError\<close> for a split into zero sections.
\<close>

theorem construct_label_range:
  assumes ld: "load_data E cfg (path_join E (c_data_dir cfg) (c_dataset cfg))
                 (c_feat_fname cfg) (c_label_fname cfg) = Inr (fts, lb)"
    and train: "c_mode cfg = ''train''"
    and req: "c_start_index cfg \<noteq> 0 \<or> c_end_index cfg \<noteq> - 1"
    and e: "e = (if c_end_index cfg = - 1 then int (labels_num_labels lb) else c_end_index cfg)"
    and nn: "0 \<le> c_start_index cfg" "0 \<le> e"
  shows "columns (Y (getitem_cols lb (c_start_index cfg) e))
           = map (\<lambda>j. columns (Y lb) ! j)
                 [nat (c_start_index cfg)..<min (nat e) (labels_num_labels lb)]
     \<and> (\<forall>L. construct E cfg = Inr L \<longrightarrow>
            end_index L = e
          \<and> labels L = snd (remove_invalid (getitem_cols lb (c_start_index cfg) e))
          \<and> valid_labels L = Some (fst (remove_invalid (getitem_cols lb (c_start_index cfg) e))))
     \<and> (e \<le> c_start_index cfg \<longrightarrow>
            columns (Y (getitem_cols lb (c_start_index cfg) e)) = []
          \<and> (c_batch_order cfg = ''instances'' \<and> 0 < f_num_instances fts \<and> 0 < c_batch_size cfg
               \<longrightarrow> (\<exists>L. construct E cfg = Inr L \<and> num_labels L = 0))
          \<and> (c_batch_order cfg = ''labels'' \<and> c_batch_size cfg \<noteq> 0
               \<longrightarrow> construct E cfg = Inl (ValueError ''number sections must be larger than 0.'')))"
proof -
  let ?s = "c_start_index cfg"
  let ?lb1 = "getitem_cols lb ?s e"
  let ?L0 = "\<lparr>feature_type = c_feature_type cfg, norm = c_norm cfg, features = fts,
             labels = snd (remove_invalid ?lb1), batch_size = c_batch_size cfg,
             start_index = c_start_index cfg, end_index = e,
             batch_order = c_batch_order cfg, mode = c_mode cfg,
             valid_labels = Some (fst (remove_invalid ?lb1)), num_valid_labels = None,
             batches = None, num_labels_orig = snd (shape (Y lb))\<rparr>"
  have r: "restrict_labels cfg lb = (e, snd (remove_invalid ?lb1), Some (fst (remove_invalid ?lb1)))"
    by (rule restrict_labels_range[OF train req e])
  have c: "construct E cfg = gen_batches ?L0" using ld r by (simp add: construct_cases)
  have cols: "columns (Y ?lb1)
           = map (\<lambda>j. columns (Y lb) ! j) [nat ?s..<min (nat e) (labels_num_labels lb)]"
    using py_slice_nonneg[OF nn, of "columns (Y lb)"]
    by (simp add: getitem_cols_def labels_num_labels_def ncols_def)
  have fields: "end_index L = e \<and> labels L = snd (remove_invalid ?lb1)
                \<and> valid_labels L = Some (fst (remove_invalid ?lb1))"
    if "construct E cfg = Inr L" for L
    using gen_batches_fields[of ?L0 L] that c by simp
  have empty: "columns (Y ?lb1) = []" if "e \<le> ?s"
    using py_slice_empty[OF nn that, of "columns (Y lb)"] by (simp add: getitem_cols_def)
  have nl0: "num_labels ?L0 = 0" if "e \<le> ?s"
    using remove_invalid_empty[OF empty[OF that]]
    by (simp add: num_labels_def labels_num_labels_def ncols_def)
  have inst: "\<exists>L. construct E cfg = Inr L \<and> num_labels L = 0"
    if le: "e \<le> ?s" and o: "c_batch_order cfg = ''instances''"
      and p: "0 < f_num_instances fts" "0 < c_batch_size cfg"
  proof -
    have a: "batch_order ?L0 = ''labels'' \<and> num_labels ?L0 = f_num_instances fts
             \<or> batch_order ?L0 = ''instances'' \<and> num_instances ?L0 = f_num_instances fts"
      using o by (simp add: num_instances_def)
    have b: "batch_size ?L0 = c_batch_size cfg" by simp
    from gen_batches_plan[OF a b p] obtain bs where
      g: "gen_batches ?L0 = Inr (?L0\<lparr>batches := Some bs\<rparr>)" by blast
    have "num_labels (?L0\<lparr>batches := Some bs\<rparr>) = num_labels ?L0" by (simp add: num_labels_def)
    then show ?thesis using g c nl0[OF le] by simp
  qed
  have lab: "construct E cfg = Inl (ValueError ''number sections must be larger than 0.'')"
    if le: "e \<le> ?s" and o: "c_batch_order cfg = ''labels''" and p: "c_batch_size cfg \<noteq> 0"
    using c nl0[OF le] o p by (simp add: gen_batches_def array_split_def)
  from cols fields empty inst lab show ?thesis by blast
qed

theorem construct_label_range_witness:
  "load_data demo_env (demo_config\<lparr>c_batch_order := ''instances'', c_start_index := 2, c_end_index := 1\<rparr>)
      (path_join demo_env ''data'' ''EURLex-4K'') ''trn_X_Xf.txt'' ''trn_X_Y.txt''
      = Inr (scenario_features, five_labels)
   \<and> c_mode (demo_config\<lparr>c_batch_order := ''instances'', c_start_index := 2, c_end_index := 1\<rparr>)
      = ''train''
   \<and> (0::int) \<le> 2 \<and> (0::int) \<le> 1 \<and> (1::int) \<le> 2
   \<and> columns (Y (getitem_cols five_labels 2 1)) = []
   \<and> (\<exists>L. construct demo_env
              (demo_config\<lparr>c_batch_order := ''instances'', c_start_index := 2, c_end_index := 1\<rparr>)
            = Inr L \<and> num_labels L = 0)"
proof -
  let ?cfg = "demo_config\<lparr>c_batch_order := ''instances'', c_start_index := 2, c_end_index := 1\<rparr>"
  have ld0: "load_data demo_env ?cfg (path_join demo_env (c_data_dir ?cfg) (c_dataset ?cfg))
          (c_feat_fname ?cfg) (c_label_fname ?cfg) = Inr (scenario_features, five_labels)"
    by (rule demo_load_data) (simp add: demo_config_def)
  have ld: "load_data demo_env ?cfg (path_join demo_env ''data'' ''EURLex-4K'')
          ''trn_X_Xf.txt'' ''trn_X_Y.txt'' = Inr (scenario_features, five_labels)"
    by (rule demo_load_data) (simp add: demo_config_def)
  have train: "c_mode ?cfg = ''train''" by (simp add: demo_config_def)
  have req: "c_start_index ?cfg \<noteq> 0 \<or> c_end_index ?cfg \<noteq> - 1" by simp
  have e: "(1::int) = (if c_end_index ?cfg = - 1 then int (labels_num_labels five_labels)
                       else c_end_index ?cfg)" by simp
  have nn: "0 \<le> c_start_index ?cfg" "(0::int) \<le> 1" by simp_all
  have side: "(1::int) \<le> c_start_index ?cfg" "c_batch_order ?cfg = ''instances''"
    "0 < f_num_instances scenario_features" "0 < c_batch_size ?cfg"
    by (simp_all add: demo_config_def scenario_features_def)
  from construct_label_range[OF ld0 train req e nn] side
  have "columns (Y (getitem_cols five_labels (c_start_index ?cfg) 1)) = []"
    "\<exists>L. construct demo_env ?cfg = Inr L \<and> num_labels L = 0"
    by blast+
  then show ?thesis using ld train by simp
qed

end
